theory Spec2Isabelle
  imports Main
begin

text \<open>
  A model of \<^verbatim>\<open>openapi-to-wxrequest.js\<close>, which turns an OpenAPI 3.0 document into the text
  of a JavaScript module with one \<^verbatim>\<open>wx.request\<close> method per operation. The functions of
  the generator are defined first, under their own names; then the text of a method is
  given a meaning as a program; then the properties are stated and proved. Reading the
  input file, the command line and writing the output file are not modelled.
\<close>

section \<open>Strings and characters\<close>

text \<open>
  JavaScript strings are modelled as HOL strings. The character classes below are the
  ones written in the regular expressions of \<^verbatim>\<open>openapi-to-wxrequest.js\<close>;
  \<^verbatim>\<open>toUpperCase\<close> and \<^verbatim>\<open>toLowerCase\<close> are modelled on the ASCII letters and are
  the identity on every other character.
\<close>

definition is_lower :: "char \<Rightarrow> bool" where
  "is_lower c = (97 \<le> (of_char c :: nat) \<and> (of_char c :: nat) \<le> 122)"

definition is_upper :: "char \<Rightarrow> bool" where
  "is_upper c = (65 \<le> (of_char c :: nat) \<and> (of_char c :: nat) \<le> 90)"

definition is_digit :: "char \<Rightarrow> bool" where
  "is_digit c = (48 \<le> (of_char c :: nat) \<and> (of_char c :: nat) \<le> 57)"

definition is_alnum :: "char \<Rightarrow> bool" where
  "is_alnum c = (is_lower c \<or> is_upper c \<or> is_digit c)"

definition is_ident_char :: "char \<Rightarrow> bool" where
  "is_ident_char c = (is_alnum c \<or> c = CHR ''_'' \<or> c = CHR ''$'')"

definition is_sep :: "char \<Rightarrow> bool" where
  "is_sep c = (c = CHR ''_'' \<or> c = CHR ''-'')"

definition to_upper :: "char \<Rightarrow> char" where
  "to_upper c = (if is_lower c then char_of ((of_char c :: nat) - 32) else c)"

definition to_lower :: "char \<Rightarrow> char" where
  "to_lower c = (if is_upper c then char_of ((of_char c :: nat) + 32) else c)"

definition toUpperCase :: "string \<Rightarrow> string" where
  "toUpperCase s = map to_upper s"

definition toLowerCase :: "string \<Rightarrow> string" where
  "toLowerCase s = map to_lower s"

section \<open>normalizeParamName\<close>

text \<open>
  \<^verbatim>\<open>name.replace(/[^a-zA-Z0-9_$]/g, '_')\<close>: every character outside the class becomes
  an underscore.
\<close>

definition replace_invalid :: "string \<Rightarrow> string" where
  "replace_invalid name = map (\<lambda>c. if is_ident_char c then c else CHR ''_'') name"

text \<open>
  \<^verbatim>\<open>if (/^\d/.test(normalized)) normalized = '_' + normalized\<close>.
\<close>

definition starts_with_digit :: "string \<Rightarrow> bool" where
  "starts_with_digit s = (case s of [] \<Rightarrow> False | c # _ \<Rightarrow> is_digit c)"

definition guard_digit :: "string \<Rightarrow> string" where
  "guard_digit s = (if starts_with_digit s then CHR ''_'' # s else s)"

text \<open>
  \<^verbatim>\<open>normalized.replace(/[_-]([a-zA-Z0-9])/g, (_, char) => char.toUpperCase())\<close>: the
  scan goes left to right; a separator followed by a letter or digit is replaced, with
  that character, by the character in upper case, and the scan resumes after the match.
\<close>

fun camel :: "string \<Rightarrow> string" where
  "camel (c # d # cs) =
     (if is_sep c \<and> is_alnum d then to_upper d # camel cs else c # camel (d # cs))"
| "camel cs = cs"

definition normalizeParamName :: "string \<Rightarrow> string" where
  "normalizeParamName name =
     (let normalized = guard_digit (replace_invalid name)
      in if CHR ''-'' \<in> set name \<or> CHR ''_'' \<in> set name then camel normalized
         else normalized)"

section \<open>String operations used by the generator\<close>

text \<open>\<^verbatim>\<open>s.split(sep)\<close> for a one-character separator; the result is never empty.\<close>

fun split_on :: "char \<Rightarrow> string \<Rightarrow> string list" where
  "split_on d [] = [[]]"
| "split_on d (c # cs) =
     (if c = d then [] # split_on d cs
      else (case split_on d cs of [] \<Rightarrow> [[c]] | p # ps \<Rightarrow> (c # p) # ps))"

text \<open>\<^verbatim>\<open>parts.join(sep)\<close>.\<close>

fun join :: "string \<Rightarrow> string list \<Rightarrow> string" where
  "join sep [] = []"
| "join sep [x] = x"
| "join sep (x # y # ys) = x @ sep @ join sep (y # ys)"

text \<open>
  \<^verbatim>\<open>s.replace(/{([^}]+)}/g, f)\<close>. At an opening brace the class \<^verbatim>\<open>[^}]+\<close> takes every
  character up to the next closing brace; the match succeeds when that run is not empty
  and a closing brace follows it, and the scan resumes after the closing brace. Where
  the match fails the opening brace is kept and the scan moves one character on.
\<close>

function replace_placeholders :: "(string \<Rightarrow> string) \<Rightarrow> string \<Rightarrow> string" where
  "replace_placeholders f [] = []"
| "replace_placeholders f (c # cs) =
     (if c = CHR ''{'' \<and> takeWhile (\<lambda>x. x \<noteq> CHR ''}'') cs \<noteq> []
          \<and> dropWhile (\<lambda>x. x \<noteq> CHR ''}'') cs \<noteq> []
      then f (takeWhile (\<lambda>x. x \<noteq> CHR ''}'') cs)
             @ replace_placeholders f (tl (dropWhile (\<lambda>x. x \<noteq> CHR ''}'') cs))
      else c # replace_placeholders f cs)"
  by pat_completeness auto
termination
proof (relation "measure (\<lambda>(f, s). length s)")
  fix f :: "string \<Rightarrow> string" and c :: char and cs :: string
  have "length (dropWhile (\<lambda>x. x \<noteq> CHR ''}'') cs) \<le> length cs"
    by (rule length_dropWhile_le)
  then have "length (tl (dropWhile (\<lambda>x. x \<noteq> CHR ''}'') cs)) \<le> length cs"
    by simp
  then show "((f, tl (dropWhile (\<lambda>x. x \<noteq> CHR ''}'') cs)), (f, c # cs))
      \<in> measure (\<lambda>(f, s). length s)"
    by simp
qed simp_all

text \<open>\<^verbatim>\<open>path.replace(/^\//, '')\<close>: one leading slash is removed.\<close>

definition strip_leading_slash :: "string \<Rightarrow> string" where
  "strip_leading_slash path =
     (case path of [] \<Rightarrow> [] | c # cs \<Rightarrow> if c = CHR ''/'' then cs else path)"

text \<open>\<^verbatim>\<open>ref.replace('#/', '')\<close>: the first occurrence of the two characters is removed.\<close>

fun remove_hash_slash :: "string \<Rightarrow> string" where
  "remove_hash_slash (c # d # cs) =
     (if c = CHR ''#'' \<and> d = CHR ''/'' then cs else c # remove_hash_slash (d # cs))"
| "remove_hash_slash cs = cs"

section \<open>generateFunctionNameFromPath\<close>

text \<open>
  \<^verbatim>\<open>parts.map((part, index) => ...)\<close>: the first part is put in lower case; of every
  other part the first character is put in upper case and the rest in lower case
  (\<^verbatim>\<open>part.charAt(0).toUpperCase() + part.slice(1).toLowerCase()\<close>).
\<close>

definition capitalize_part :: "string \<Rightarrow> string" where
  "capitalize_part part = toUpperCase (take 1 part) @ toLowerCase (drop 1 part)"

definition camelCaseParts :: "string list \<Rightarrow> string list" where
  "camelCaseParts parts =
     (case parts of [] \<Rightarrow> [] | p # ps \<Rightarrow> toLowerCase p # map capitalize_part ps)"

definition generateFunctionNameFromPath :: "string \<Rightarrow> string \<Rightarrow> string" where
  "generateFunctionNameFromPath method path =
     (let cleanPath = replace_placeholders (\<lambda>name. name) (strip_leading_slash path);
          parts = split_on CHR ''/'' cleanPath
      in toLowerCase method @ join [] (camelCaseParts parts))"

text \<open>
  \<^verbatim>\<open>operation.operationId || generateFunctionNameFromPath(method, path)\<close>: an absent
  operationId and the empty string are both falsy.
\<close>

definition functionName_of :: "string option \<Rightarrow> string \<Rightarrow> string \<Rightarrow> string" where
  "functionName_of operationId method path =
     (case operationId of
        None \<Rightarrow> generateFunctionNameFromPath method path
      | Some i \<Rightarrow> if i = [] then generateFunctionNameFromPath method path else i)"

section \<open>Documents as JSON trees\<close>

text \<open>
  The parsed OpenAPI document is a tree of JavaScript values. An object is the list of
  its own properties in the order \<^verbatim>\<open>Object.entries\<close> enumerates them, with distinct
  keys; for keys that are not array indices that is the order of declaration. Numbers
  are integers. \<^verbatim>\<open>undefined\<close> is \<open>None\<close> of \<open>json option\<close>. Property reads are reads
  of own properties: what a value inherits from its prototype is outside the model.
\<close>

datatype json =
    JNull
  | JBool bool
  | JNum int
  | JStr string
  | JArr "json list"
  | JObj "(string \<times> json) list"

text \<open>The values JavaScript treats as true in a condition.\<close>

fun truthy :: "json \<Rightarrow> bool" where
  "truthy JNull = False"
| "truthy (JBool b) = b"
| "truthy (JNum n) = (n \<noteq> 0)"
| "truthy (JStr s) = (s \<noteq> [])"
| "truthy (JArr xs) = True"
| "truthy (JObj kvs) = True"

text \<open>Decimal digits of a natural number, and the array index a property key denotes.\<close>

definition digit_char :: "nat \<Rightarrow> char" where
  "digit_char d = char_of (48 + d)"

fun show_nat :: "nat \<Rightarrow> string" where
  "show_nat n = (if n < 10 then [digit_char n] else show_nat (n div 10) @ [digit_char (n mod 10)])"

definition show_int :: "int \<Rightarrow> string" where
  "show_int i = (if i < 0 then CHR ''-'' # show_nat (nat (- i)) else show_nat (nat i))"

definition digits_value :: "string \<Rightarrow> nat" where
  "digits_value s = foldl (\<lambda>a c. 10 * a + ((of_char c :: nat) - 48)) 0 s"

definition parse_index :: "string \<Rightarrow> nat option" where
  "parse_index k =
     (if k \<noteq> [] \<and> list_all is_digit k \<and> (length k = 1 \<or> hd k \<noteq> CHR ''0'')
      then Some (digits_value k) else None)"

text \<open>\<^verbatim>\<open>value[key]\<close> for a value that is neither null nor undefined.\<close>

fun get_prop :: "json \<Rightarrow> string \<Rightarrow> json option" where
  "get_prop (JObj kvs) k = map_of kvs k"
| "get_prop (JArr xs) k =
     (if k = ''length'' then Some (JNum (int (length xs)))
      else (case parse_index k of
              None \<Rightarrow> None
            | Some i \<Rightarrow> if i < length xs then Some (xs ! i) else None))"
| "get_prop (JStr s) k =
     (if k = ''length'' then Some (JNum (int (length s)))
      else (case parse_index k of
              None \<Rightarrow> None
            | Some i \<Rightarrow> if i < length s then Some (JStr [s ! i]) else None))"
| "get_prop v k = None"

text \<open>\<^verbatim>\<open>Object.entries(value)\<close>.\<close>

fun entries :: "json \<Rightarrow> (string \<times> json) list" where
  "entries (JObj kvs) = kvs"
| "entries (JArr xs) = zip (map show_nat [0..<length xs]) xs"
| "entries (JStr s) = zip (map show_nat [0..<length s]) (map (\<lambda>c. JStr [c]) s)"
| "entries v = []"

text \<open>
  The string a value is converted to where it is used as a property key
  (\<^verbatim>\<open>typeMap[schema.type]\<close>) or interpolated into a template.
\<close>

fun js_string :: "json \<Rightarrow> string" where
  "js_string JNull = ''null''"
| "js_string (JBool b) = (if b then ''true'' else ''false'')"
| "js_string (JNum n) = show_int n"
| "js_string (JStr s) = s"
| "js_string (JArr xs) =
     join '','' (map (\<lambda>x. if x = JNull then [] else js_string x) xs)"
| "js_string (JObj kvs) = ''[object Object]''"

definition js_string_opt :: "json option \<Rightarrow> string" where
  "js_string_opt v = (case v of None \<Rightarrow> ''undefined'' | Some x \<Rightarrow> js_string x)"

section \<open>Runs that may throw, warn or not return\<close>

text \<open>
  The result of a run is \<open>None\<close> when it never returns; otherwise it is the value or the
  exception, with the lines written by \<^verbatim>\<open>console.warn\<close> up to that point.
\<close>

datatype error = TypeError | ReferenceError

type_synonym 'a run = "((error + 'a) \<times> string list) option"

definition return_run :: "'a \<Rightarrow> 'a run" where
  "return_run a = Some (Inr a, [])"

definition throw_run :: "error \<Rightarrow> 'a run" where
  "throw_run e = Some (Inl e, [])"

definition bind_run :: "'a run \<Rightarrow> ('a \<Rightarrow> 'b run) \<Rightarrow> 'b run" where
  "bind_run m f =
     (case m of
        None \<Rightarrow> None
      | Some (r, w) \<Rightarrow>
          (case r of
             Inl e \<Rightarrow> Some (Inl e, w)
           | Inr a \<Rightarrow> (case f a of None \<Rightarrow> None | Some (r', w') \<Rightarrow> Some (r', w @ w'))))"

definition lift_run :: "error + 'a \<Rightarrow> 'a run" where
  "lift_run r = Some (r, [])"

section \<open>resolveSchema\<close>

text \<open>
  The recursion follows reference to reference with no guard against a cycle, so the
  function is partial, and not returning is \<open>None\<close>.
\<close>

definition unknown_schema :: json where
  "unknown_schema = JObj [(''type'', JStr ''any'')]"

definition warning :: "string \<Rightarrow> string" where
  "warning r = ''Could not resolve reference: '' @ r"

text \<open>
  The loop \<^verbatim>\<open>for (const segment of refPath) { resolved = resolved[segment]; if (!resolved) ... }\<close>;
  \<open>None\<close> is the early exit.
\<close>

fun walk :: "json \<Rightarrow> string list \<Rightarrow> json option" where
  "walk resolved [] = Some resolved"
| "walk resolved (segment # rest) =
     (case get_prop resolved segment of
        None \<Rightarrow> None
      | Some r \<Rightarrow> if truthy r then walk r rest else None)"

definition refPath :: "string \<Rightarrow> string list" where
  "refPath r = split_on CHR ''/'' (remove_hash_slash r)"

partial_function (option) resolveSchema ::
  "json \<Rightarrow> json option \<Rightarrow> json run" where
  "resolveSchema spec schema =
     (case schema of
        None \<Rightarrow> Some (Inr unknown_schema, [])
      | Some s \<Rightarrow>
          if \<not> truthy s then Some (Inr unknown_schema, [])
          else (case get_prop s ''$ref'' of
                  None \<Rightarrow> Some (Inr s, [])
                | Some ref \<Rightarrow>
                    if \<not> truthy ref then Some (Inr s, [])
                    else (case ref of
                            JStr r \<Rightarrow>
                              (case walk spec (refPath r) of
                                 None \<Rightarrow> Some (Inr unknown_schema, [warning r])
                               | Some resolved \<Rightarrow> resolveSchema spec (Some resolved))
                          | _ \<Rightarrow> Some (Inl TypeError, []))))"

declare resolveSchema.simps [code]

section \<open>getTypeFromSchema\<close>

text \<open>
  \<^verbatim>\<open>schema.required && schema.required.includes(name)\<close>: an array has the name among
  its elements, a string has it as a substring, and on any other true value
  \<^verbatim>\<open>includes\<close> is not a function, which throws.
\<close>

fun string_includes :: "string \<Rightarrow> string \<Rightarrow> bool" where
  "string_includes [] sub = (sub = [])"
| "string_includes (c # cs) sub =
     (take (length sub) (c # cs) = sub \<or> string_includes cs sub)"

definition isRequired :: "json option \<Rightarrow> string \<Rightarrow> error + bool" where
  "isRequired required name =
     (case required of
        None \<Rightarrow> Inr False
      | Some r \<Rightarrow>
          if \<not> truthy r then Inr False
          else (case r of
                  JArr xs \<Rightarrow> Inr (JStr name \<in> set xs)
                | JStr s \<Rightarrow> Inr (string_includes s name)
                | _ \<Rightarrow> Inl TypeError))"

text \<open>The table \<^verbatim>\<open>typeMap\<close> and the lookup \<^verbatim>\<open>typeMap[schema.type] || 'any'\<close>.\<close>

definition typeMap :: "(string \<times> string) list" where
  "typeMap =
     [(''integer'', ''number''), (''number'', ''number''), (''string'', ''string''),
      (''boolean'', ''boolean''), (''null'', ''null'')]"

definition typeMap_lookup :: "json option \<Rightarrow> string" where
  "typeMap_lookup t =
     (case map_of typeMap (js_string_opt t) of None \<Rightarrow> ''any'' | Some ty \<Rightarrow> ty)"

definition truthy_opt :: "json option \<Rightarrow> bool" where
  "truthy_opt v = (case v of None \<Rightarrow> False | Some x \<Rightarrow> truthy x)"

text \<open>The results of a \<^verbatim>\<open>map\<close> whose callback may throw: the first exception ends it.\<close>

fun collect :: "(error + 'a) list \<Rightarrow> error + 'a list" where
  "collect [] = Inr []"
| "collect (x # xs) =
     (case x of
        Inl e \<Rightarrow> Inl e
      | Inr v \<Rightarrow> (case collect xs of Inl e \<Rightarrow> Inl e | Inr vs \<Rightarrow> Inr (v # vs)))"

text \<open>One property line \<^verbatim>\<open>`${name}${isRequired ? '' : '?'}: ${propType}`\<close>.\<close>

definition property_line :: "json option \<Rightarrow> string \<Rightarrow> error + string \<Rightarrow> error + string" where
  "property_line required name propType =
     (case propType of
        Inl e \<Rightarrow> Inl e
      | Inr ty \<Rightarrow>
          (case isRequired required name of
             Inl e \<Rightarrow> Inl e
           | Inr req \<Rightarrow> Inr (name @ (if req then [] else ''?'') @ '': '' @ ty)))"

lemma size_entry_le:
  "(k, v) \<in> set kvs \<Longrightarrow> size v \<le> size_list (size_prod (\<lambda>x. 0) size) kvs"
  by (induction kvs) auto

lemma size_element_le: "v \<in> set xs \<Longrightarrow> size v \<le> size_list size xs"
  by (induction xs) auto

lemma size_entries_le: "(k, v) \<in> set (entries p) \<Longrightarrow> size v \<le> size p"
proof (cases p)
  case (JObj kvs)
  assume "(k, v) \<in> set (entries p)"
  with JObj show ?thesis using size_entry_le [of k v kvs] by simp
next
  case (JArr xs)
  assume "(k, v) \<in> set (entries p)"
  with JArr have "v \<in> set xs" by (auto dest: set_zip_rightD)
  with JArr show ?thesis using size_element_le [of v xs] by simp
next
  case (JStr s)
  assume "(k, v) \<in> set (entries p)"
  with JStr have "v \<in> set (map (\<lambda>c. JStr [c]) s)" by (auto dest: set_zip_rightD)
  then show ?thesis by auto
qed simp_all

lemma parse_index_items: "parse_index ''items'' = None"
  by (simp add: parse_index_def is_digit_def)

lemma parse_index_properties: "parse_index ''properties'' = None"
  by (simp add: parse_index_def is_digit_def)

lemma size_items_less: "get_prop schema ''items'' = Some v \<Longrightarrow> size v < size schema"
proof (cases schema)
  case (JObj kvs)
  assume "get_prop schema ''items'' = Some v"
  with JObj have "(''items'', v) \<in> set kvs" by (simp add: map_of_SomeD)
  with JObj show ?thesis using size_entry_le [of "''items''" v kvs] by simp
qed (simp_all add: parse_index_items)

lemma size_properties_less:
  "get_prop schema ''properties'' = Some v \<Longrightarrow> size v < size schema"
proof (cases schema)
  case (JObj kvs)
  assume "get_prop schema ''properties'' = Some v"
  with JObj have "(''properties'', v) \<in> set kvs" by (simp add: map_of_SomeD)
  with JObj show ?thesis using size_entry_le [of "''properties''" v kvs] by simp
qed (simp_all add: parse_index_properties)

function getTypeFromSchema :: "json \<Rightarrow> error + string" where
  "getTypeFromSchema schema =
     (if \<not> truthy schema then Inr ''any''
      else if get_prop schema ''type'' = Some (JStr ''array'') then
        (case get_prop schema ''items'' of
           None \<Rightarrow> Inr ''Array<any>''
         | Some items \<Rightarrow>
             if truthy items then
               (case getTypeFromSchema items of
                  Inl e \<Rightarrow> Inl e
                | Inr itemType \<Rightarrow> Inr (''Array<'' @ itemType @ ''>''))
             else Inr ''Array<any>'')
      else if get_prop schema ''type'' = Some (JStr ''object'')
              \<or> (\<not> truthy_opt (get_prop schema ''type'')
                  \<and> truthy_opt (get_prop schema ''properties'')) then
        (case get_prop schema ''properties'' of
           None \<Rightarrow> Inr ''object''
         | Some properties \<Rightarrow>
             if truthy properties then
               (case collect
                       (map (\<lambda>(name, propSchema).
                               property_line (get_prop schema ''required'') name
                                 (getTypeFromSchema propSchema))
                            (entries properties)) of
                  Inl e \<Rightarrow> Inl e
                | Inr props \<Rightarrow> Inr (''{'' @ join '', '' props @ ''}''))
             else Inr ''object'')
      else Inr (typeMap_lookup (get_prop schema ''type'')))"
  by pat_completeness auto
termination
proof (relation "measure size")
  fix schema items :: json
  assume "get_prop schema ''items'' = Some items"
  then show "(items, schema) \<in> measure size"
    by (simp add: size_items_less)
next
  fix schema properties propSchema :: json and entry :: "string \<times> json" and name :: string
  assume "get_prop schema ''properties'' = Some properties"
    and "entry \<in> set (entries properties)"
    and "(name, propSchema) = entry"
  then have "size propSchema \<le> size properties" and "size properties < size schema"
    by (auto simp: size_entries_le size_properties_less)
  then show "(propSchema, schema) \<in> measure size"
    by simp
qed simp

declare getTypeFromSchema.simps [simp del]

section \<open>Operations\<close>

text \<open>
  The members of an operation that the generator reads, with the types it uses them at:
  names and descriptions are strings, \<^verbatim>\<open>required\<close> is read as a condition, schemas are
  trees of the document. An absent member is \<open>None\<close>. A content mapping is the list of
  its entries in the order of \<^verbatim>\<open>Object.keys\<close>.
\<close>

record parameter =
  param_name :: string
  param_in :: string
  param_required :: bool
  param_schema :: "json option"
  param_description :: "string option"

record media_type =
  media_schema :: "json option"

record request_body =
  body_required :: bool
  body_description :: "string option"
  body_content :: "(string \<times> media_type) list"

record response =
  response_description :: "string option"
  response_content :: "(string \<times> media_type) list option"

record operation =
  operationId :: "string option"
  summary :: "string option"
  description :: "string option"
  parameters :: "parameter list option"
  requestBody :: "request_body option"
  responses :: "(string \<times> response) list option"

text \<open>\<^verbatim>\<open>value || fallback\<close> on a string that may be absent.\<close>

definition or_else :: "string option \<Rightarrow> string \<Rightarrow> string" where
  "or_else v fallback = (case v of None \<Rightarrow> fallback | Some s \<Rightarrow> if s = [] then fallback else s)"

text \<open>\<^verbatim>\<open>Object.keys(content)[0] || 'application/json'\<close>.\<close>

definition primary_content_type :: "(string \<times> media_type) list \<Rightarrow> string" where
  "primary_content_type content =
     (case content of
        [] \<Rightarrow> ''application/json''
      | (k, m) # rest \<Rightarrow> if k = [] then ''application/json'' else k)"

definition quote :: string where
  "quote = [CHR 0x27]"

definition dquote :: string where
  "dquote = [CHR 0x22]"

definition backtick :: string where
  "backtick = [CHR 0x60]"

section \<open>generateJSDoc\<close>

text \<open>\<^verbatim>\<open>getTypeFromSchema(resolveSchema(spec, schema))\<close>.\<close>

definition inferred_type :: "json \<Rightarrow> json option \<Rightarrow> string run" where
  "inferred_type spec schema =
     bind_run (resolveSchema spec schema) (\<lambda>resolved. lift_run (getTypeFromSchema resolved))"

definition optional_mark :: "bool \<Rightarrow> string" where
  "optional_mark required = (if required then [] else '' (optional)'')"

text \<open>The line of one parameter, and the loop over \<^verbatim>\<open>allParams\<close>.\<close>

definition param_doc :: "json \<Rightarrow> parameter \<Rightarrow> string run" where
  "param_doc spec param =
     bind_run (inferred_type spec (param_schema param))
       (\<lambda>type. return_run
          ('' * @param {'' @ type @ ''} params.'' @ normalizeParamName (param_name param)
           @ '' - '' @ or_else (param_description param) []
           @ optional_mark (param_required param) @ ''\<newline>''))"

fun params_doc :: "json \<Rightarrow> parameter list \<Rightarrow> string run" where
  "params_doc spec [] = return_run []"
| "params_doc spec (param # rest) =
     bind_run (param_doc spec param)
       (\<lambda>line. bind_run (params_doc spec rest) (\<lambda>lines. return_run (line @ lines)))"

text \<open>
  The line of the request body. \<^verbatim>\<open>requestBody.content[contentType].schema\<close> throws when
  the content mapping has no member under that key.
\<close>

definition body_doc :: "json \<Rightarrow> request_body option \<Rightarrow> string run" where
  "body_doc spec body =
     (case body of
        None \<Rightarrow> return_run []
      | Some rb \<Rightarrow>
          (case map_of (body_content rb) (primary_content_type (body_content rb)) of
             None \<Rightarrow> throw_run TypeError
           | Some media \<Rightarrow>
               bind_run (inferred_type spec (media_schema media))
                 (\<lambda>type. return_run
                    ('' * @param {'' @ type @ ''} params.requestData - ''
                     @ or_else (body_description rb) ''Request body''
                     @ optional_mark (body_required rb) @ ''\<newline>''))))"

text \<open>The line of the return type, from the response under the key \<^verbatim>\<open>200\<close>.\<close>

definition returns_any :: "string \<Rightarrow> string" where
  "returns_any what = '' * @returns {Promise<any>} Promise resolving to '' @ what @ ''\<newline>''"

definition returns_doc :: "json \<Rightarrow> (string \<times> response) list option \<Rightarrow> string run" where
  "returns_doc spec resps =
     (case (case resps of None \<Rightarrow> None | Some rs \<Rightarrow> map_of rs ''200'') of
        None \<Rightarrow> return_run (returns_any ''response data'')
      | Some successResponse \<Rightarrow>
          (case response_content successResponse of
             None \<Rightarrow> return_run (returns_any ''response data'')
           | Some content \<Rightarrow>
               (case map_of content (primary_content_type content) of
                  None \<Rightarrow> throw_run TypeError
                | Some media \<Rightarrow>
                    if truthy_opt (media_schema media) then
                      bind_run (inferred_type spec (media_schema media))
                        (\<lambda>type. return_run
                           ('' * @returns {Promise<'' @ type @ ''>} Promise resolving to ''
                            @ or_else (response_description successResponse) ''response data''
                            @ ''\<newline>''))
                    else return_run
                           (returns_any
                              (or_else (response_description successResponse) ''response data'')))))"

definition generateJSDoc ::
  "json \<Rightarrow> operation \<Rightarrow> parameter list \<Rightarrow> parameter list \<Rightarrow> parameter list
     \<Rightarrow> request_body option \<Rightarrow> string run" where
  "generateJSDoc spec operation pathParams queryParams headerParams body =
     bind_run (params_doc spec (pathParams @ queryParams @ headerParams)) (\<lambda>paramLines.
     bind_run (body_doc spec body) (\<lambda>bodyLine.
     bind_run (returns_doc spec (responses operation)) (\<lambda>returnsLine.
     return_run
       (''/**\<newline>''
        @ '' * '' @ or_else (summary operation) [] @ ''\<newline>''
        @ (if or_else (description operation) [] = [] then []
           else '' * '' @ or_else (description operation) [] @ ''\<newline>'')
        @ '' *\<newline>''
        @ '' * @param {Object} params - The parameters for the request\<newline>''
        @ paramLines @ bodyLine @ returnsLine
        @ '' */''))))"

section \<open>generateFunction\<close>

text \<open>\<^verbatim>\<open>(operation.parameters || []).filter(p => p.in === location)\<close>.\<close>

definition params_in :: "string \<Rightarrow> operation \<Rightarrow> parameter list" where
  "params_in location operation =
     filter (\<lambda>p. param_in p = location)
       (case parameters operation of None \<Rightarrow> [] | Some ps \<Rightarrow> ps)"

definition default_mark :: "bool \<Rightarrow> string" where
  "default_mark required = (if required then [] else '' = undefined'')"

text \<open>The destructuring of \<^verbatim>\<open>params\<close>, written when there is anything to destructure.\<close>

definition destructure_code ::
  "parameter list \<Rightarrow> parameter list \<Rightarrow> parameter list \<Rightarrow> request_body option \<Rightarrow> string" where
  "destructure_code pathParams queryParams headerParams body =
     (if pathParams \<noteq> [] \<or> queryParams \<noteq> [] \<or> headerParams \<noteq> [] \<or> body \<noteq> None then
        ''    // Destructure parameters with defaults\<newline>''
        @ ''    const {\<newline>''
        @ concat (map (\<lambda>param. ''      '' @ normalizeParamName (param_name param) @ '',\<newline>'')
                      pathParams)
        @ concat (map (\<lambda>param. ''      '' @ normalizeParamName (param_name param)
                                @ default_mark (param_required param) @ '',\<newline>'')
                      queryParams)
        @ concat (map (\<lambda>param. ''      '' @ normalizeParamName (param_name param)
                                @ default_mark (param_required param) @ '',\<newline>'')
                      headerParams)
        @ (case body of
             None \<Rightarrow> []
           | Some rb \<Rightarrow> ''      requestData'' @ default_mark (body_required rb) @ '',\<newline>'')
        @ ''    } = params;\<newline>\<newline>''
      else [])"

text \<open>
  The URL template: every match of \<^verbatim>\<open>{name}\<close> in the path becomes an interpolation of
  the normalized name.
\<close>

definition url_template :: "string \<Rightarrow> string" where
  "url_template path =
     replace_placeholders (\<lambda>paramName. ''${'' @ normalizeParamName paramName @ ''}'') path"

definition url_code :: "string \<Rightarrow> string" where
  "url_code path =
     ''    // Construct URL with path parameters\<newline>''
     @ ''    let url = '' @ backtick @ ''${BASE_URL}'' @ url_template path @ backtick @ '';\<newline>''"

definition query_code :: "parameter list \<Rightarrow> string" where
  "query_code queryParams =
     (if queryParams \<noteq> [] then
        ''\<newline>    // Add query parameters\<newline>''
        @ ''    const queryString = [];\<newline>''
        @ concat (map (\<lambda>param.
             ''    if ('' @ normalizeParamName (param_name param) @ '' !== undefined) {\<newline>''
             @ ''      queryString.push('' @ backtick @ param_name param
             @ ''=${encodeURIComponent('' @ normalizeParamName (param_name param) @ '')}''
             @ backtick @ '');\<newline>''
             @ ''    }\<newline>'') queryParams)
        @ ''    if (queryString.length > 0) {\<newline>''
        @ ''      url += '' @ backtick @ ''?${queryString.join('' @ quote @ ''&'' @ quote @ '')}''
        @ backtick @ '';\<newline>''
        @ ''    }\<newline>''
      else [])"

definition header_param_lines :: "parameter list \<Rightarrow> string" where
  "header_param_lines headerParams =
     concat (map (\<lambda>param. ''        '' @ quote @ param_name param @ quote @ '': ''
                           @ normalizeParamName (param_name param) @ '',\<newline>'')
                 headerParams)"

definition options_code :: "string \<Rightarrow> parameter list \<Rightarrow> request_body option \<Rightarrow> string" where
  "options_code method headerParams body =
     ''\<newline>    // Prepare request options\<newline>''
     @ ''    const options = {\<newline>''
     @ ''      url,\<newline>''
     @ ''      method: '' @ quote @ toUpperCase method @ quote @ '',\<newline>''
     @ (if headerParams \<noteq> [] then
          ''      header: {\<newline>'' @ header_param_lines headerParams @ ''      },\<newline>''
        else [])
     @ (case body of
          None \<Rightarrow> []
        | Some rb \<Rightarrow>
            ''      header: {\<newline>''
            @ ''        '' @ quote @ ''Content-Type'' @ quote @ '': '' @ quote
            @ primary_content_type (body_content rb) @ quote @ '',\<newline>''
            @ (if headerParams \<noteq> [] then header_param_lines headerParams else [])
            @ ''      },\<newline>''
            @ ''      data: requestData,\<newline>'')
     @ ''    };\<newline>\<newline>''
     @ ''    return request(options);\<newline>''
     @ ''  };\<newline>''"

record functionInfo =
  fn_name :: string
  fn_code :: string

definition generateFunction ::
  "json \<Rightarrow> string \<Rightarrow> string \<Rightarrow> operation \<Rightarrow> string \<Rightarrow> functionInfo run" where
  "generateFunction spec path method operation baseUrl =
     (let functionName = functionName_of (operationId operation) method path;
          pathParams = params_in ''path'' operation;
          queryParams = params_in ''query'' operation;
          headerParams = params_in ''header'' operation;
          body = requestBody operation
      in bind_run (generateJSDoc spec operation pathParams queryParams headerParams body)
           (\<lambda>jsDoc. return_run
              \<lparr>fn_name = functionName,
               fn_code =
                 jsDoc @ ''\<newline>  client.'' @ functionName @ '' = function(params = {}) {\<newline>''
                 @ destructure_code pathParams queryParams headerParams body
                 @ url_code path
                 @ query_code queryParams
                 @ options_code method headerParams body\<rparr>))"

section \<open>generateJavaScriptModule\<close>

text \<open>
  The document as the module generator reads it: the \<^verbatim>\<open>info\<close> member, the paths with
  the entries of every path item in the order of \<^verbatim>\<open>Object.entries\<close>, and the whole
  document as the tree that \<^verbatim>\<open>resolveSchema\<close> walks. The value under a key of a path
  item that is not an HTTP method is never read.
\<close>

record info =
  info_title :: string
  info_description :: "string option"
  info_version :: string

record document =
  doc_info :: info
  doc_paths :: "(string \<times> (string \<times> operation) list) list"
  doc_tree :: json

definition unlines :: "string list \<Rightarrow> string" where
  "unlines ls = concat (map (\<lambda>l. l @ ''\<newline>'') ls)"

definition generateModuleHeader :: "document \<Rightarrow> string \<Rightarrow> string" where
  "generateModuleHeader spec baseUrl =
     unlines
       [''/**'',
        '' * '' @ info_title (doc_info spec) @ '' - API Client'',
        '' * '' @ or_else (info_description (doc_info spec)) [],
        '' * Version: '' @ info_version (doc_info spec),
        '' * '',
        '' * Auto-generated from OpenAPI specification'',
        '' */'',
        [],
        ''/**'',
        '' * Creates an API client with the specified configuration'',
        '' * @param {Object} config - Client configuration'',
        '' * @param {string} config.baseUrl - Base URL for API requests'',
        '' * @returns {Object} - API client object with all available methods'',
        '' */'',
        ''function createClient(config = {}) {'',
        ''  // Use provided baseUrl or default'',
        ''  const BASE_URL = config.baseUrl || '' @ dquote @ baseUrl @ dquote @ '';'',
        [],
        ''  /**'',
        ''   * Makes a request using wx.request with Promise wrapper'',
        ''   * @param {Object} options - The wx.request options'',
        ''   * @returns {Promise<any>} - Promise resolving to the response data'',
        ''   */'',
        ''  function request(options) {'',
        ''    return new Promise((resolve, reject) => {'',
        ''      wx.request({'',
        ''        ...options,'',
        ''        success: (res) => {'',
        ''          if (res.statusCode >= 200 && res.statusCode < 300) {'',
        ''            resolve(res.data);'',
        ''          } else {'',
        ''            reject({'',
        ''              statusCode: res.statusCode,'',
        ''              message: res.data?.message || 'Request failed','',
        ''              data: res.data'',
        ''            });'',
        ''          }'',
        ''        },'',
        ''        fail: (err) => {'',
        ''          reject({'',
        ''            message: err.errMsg || 'Network error','',
        ''            ...err'',
        ''          });'',
        ''        }'',
        ''      });'',
        ''    });'',
        ''  }'',
        [],
        ''  // Client object to hold all API methods'',
        ''  const client = {};'',
        []]"

definition http_methods :: "string list" where
  "http_methods = [''get'', ''post'', ''put'', ''delete'', ''patch'', ''head'', ''options'']"

text \<open>The operations in the order the two nested loops visit them.\<close>

definition operations_of :: "document \<Rightarrow> (string \<times> string \<times> operation) list" where
  "operations_of spec =
     concat (map (\<lambda>(path, pathItem).
                    map (\<lambda>(method, operation). (path, method, operation))
                        (filter (\<lambda>(method, operation). method \<in> set http_methods) pathItem))
                 (doc_paths spec))"

fun generate_functions ::
  "json \<Rightarrow> string \<Rightarrow> (string \<times> string \<times> operation) list \<Rightarrow> functionInfo list run" where
  "generate_functions tree baseUrl [] = return_run []"
| "generate_functions tree baseUrl ((path, method, operation) # rest) =
     bind_run (generateFunction tree path method operation baseUrl)
       (\<lambda>functionInfo. bind_run (generate_functions tree baseUrl rest)
          (\<lambda>infos. return_run (functionInfo # infos)))"

definition module_footer :: string where
  "module_footer =
     ''\<newline>\<newline>  return client;\<newline>}\<newline>\<newline>''
     @ ''// Export the client factory function\<newline>module.exports = { createClient };\<newline>''"

definition generateJavaScriptModule :: "document \<Rightarrow> string \<Rightarrow> string run" where
  "generateJavaScriptModule spec baseUrl =
     bind_run (generate_functions (doc_tree spec) baseUrl (operations_of spec))
       (\<lambda>infos. return_run
          (generateModuleHeader spec baseUrl
           @ join ''\<newline>\<newline>'' (map fn_code infos)
           @ module_footer))"

section \<open>The emitted method as a program\<close>

text \<open>
  The text of a method is the print of a small program: the identifiers destructured from
  \<^verbatim>\<open>params\<close>, the URL template, the query parameters, the HTTP method, the \<^verbatim>\<open>header\<close>
  properties of the options literal, and whether \<^verbatim>\<open>data: requestData\<close> is among them.
  \<open>method_program\<close> builds the program of an operation, \<open>print_method\<close> prints it, and the
  print is the text that \<^verbatim>\<open>generateFunction\<close> emits after the documentation comment.
\<close>

datatype piece = Text char | Interp string

datatype header_value = Literal string | Variable string

record method_program =
  prog_name :: string
  prog_fields :: "(string \<times> bool) list"
  prog_url :: "piece list"
  prog_query :: "(string \<times> string) list"
  prog_method :: string
  prog_headers :: "(string \<times> header_value) list list"
  prog_data :: bool

text \<open>The pieces of the URL template: the matches of \<^verbatim>\<open>{name}\<close>, and the characters between.\<close>

function url_pieces :: "string \<Rightarrow> piece list" where
  "url_pieces [] = []"
| "url_pieces (c # cs) =
     (if c = CHR ''{'' \<and> takeWhile (\<lambda>x. x \<noteq> CHR ''}'') cs \<noteq> []
          \<and> dropWhile (\<lambda>x. x \<noteq> CHR ''}'') cs \<noteq> []
      then Interp (normalizeParamName (takeWhile (\<lambda>x. x \<noteq> CHR ''}'') cs))
             # url_pieces (tl (dropWhile (\<lambda>x. x \<noteq> CHR ''}'') cs))
      else Text c # url_pieces cs)"
  by pat_completeness auto
termination
proof (relation "measure length")
  fix c :: char and cs :: string
  have "length (dropWhile (\<lambda>x. x \<noteq> CHR ''}'') cs) \<le> length cs"
    by (rule length_dropWhile_le)
  then have "length (tl (dropWhile (\<lambda>x. x \<noteq> CHR ''}'') cs)) \<le> length cs"
    by simp
  then show "(tl (dropWhile (\<lambda>x. x \<noteq> CHR ''}'') cs), c # cs) \<in> measure length"
    by simp
qed simp_all

definition header_entries :: "parameter list \<Rightarrow> (string \<times> header_value) list" where
  "header_entries headerParams =
     map (\<lambda>param. (param_name param, Variable (normalizeParamName (param_name param))))
         headerParams"

definition method_program :: "string \<Rightarrow> string \<Rightarrow> operation \<Rightarrow> method_program" where
  "method_program path method operation =
     (let pathParams = params_in ''path'' operation;
          queryParams = params_in ''query'' operation;
          headerParams = params_in ''header'' operation;
          body = requestBody operation
      in \<lparr>prog_name = functionName_of (operationId operation) method path,
          prog_fields =
            map (\<lambda>param. (normalizeParamName (param_name param), False)) pathParams
            @ map (\<lambda>param. (normalizeParamName (param_name param), \<not> param_required param))
                  (queryParams @ headerParams)
            @ (case body of None \<Rightarrow> [] | Some rb \<Rightarrow> [(''requestData'', \<not> body_required rb)]),
          prog_url = url_pieces path,
          prog_query =
            map (\<lambda>param. (param_name param, normalizeParamName (param_name param))) queryParams,
          prog_method = toUpperCase method,
          prog_headers =
            (if headerParams \<noteq> [] then [header_entries headerParams] else [])
            @ (case body of
                 None \<Rightarrow> []
               | Some rb \<Rightarrow>
                   [(''Content-Type'', Literal (primary_content_type (body_content rb)))
                    # header_entries headerParams]),
          prog_data = (body \<noteq> None)\<rparr>)"

subsection \<open>Printing\<close>

definition print_piece :: "piece \<Rightarrow> string" where
  "print_piece p = (case p of Text c \<Rightarrow> [c] | Interp x \<Rightarrow> ''${'' @ x @ ''}'')"

definition print_fields :: "(string \<times> bool) list \<Rightarrow> string" where
  "print_fields fs =
     (if fs = [] then []
      else ''    // Destructure parameters with defaults\<newline>''
           @ ''    const {\<newline>''
           @ concat (map (\<lambda>(x, dflt). ''      '' @ x @ (if dflt then '' = undefined'' else [])
                                      @ '',\<newline>'') fs)
           @ ''    } = params;\<newline>\<newline>'')"

definition print_url :: "piece list \<Rightarrow> string" where
  "print_url pieces =
     ''    // Construct URL with path parameters\<newline>''
     @ ''    let url = '' @ backtick @ ''${BASE_URL}'' @ concat (map print_piece pieces)
     @ backtick @ '';\<newline>''"

definition print_query :: "(string \<times> string) list \<Rightarrow> string" where
  "print_query query =
     (if query = [] then []
      else ''\<newline>    // Add query parameters\<newline>''
           @ ''    const queryString = [];\<newline>''
           @ concat (map (\<lambda>(name, x).
                ''    if ('' @ x @ '' !== undefined) {\<newline>''
                @ ''      queryString.push('' @ backtick @ name
                @ ''=${encodeURIComponent('' @ x @ '')}'' @ backtick @ '');\<newline>''
                @ ''    }\<newline>'') query)
           @ ''    if (queryString.length > 0) {\<newline>''
           @ ''      url += '' @ backtick @ ''?${queryString.join('' @ quote @ ''&'' @ quote @ '')}''
           @ backtick @ '';\<newline>''
           @ ''    }\<newline>'')"

definition print_header_value :: "header_value \<Rightarrow> string" where
  "print_header_value v = (case v of Literal s \<Rightarrow> quote @ s @ quote | Variable x \<Rightarrow> x)"

definition print_header :: "(string \<times> header_value) list \<Rightarrow> string" where
  "print_header block =
     ''      header: {\<newline>''
     @ concat (map (\<lambda>(key, v). ''        '' @ quote @ key @ quote @ '': ''
                               @ print_header_value v @ '',\<newline>'') block)
     @ ''      },\<newline>''"

definition print_method :: "method_program \<Rightarrow> string" where
  "print_method prog =
     ''  client.'' @ prog_name prog @ '' = function(params = {}) {\<newline>''
     @ print_fields (prog_fields prog)
     @ print_url (prog_url prog)
     @ print_query (prog_query prog)
     @ ''\<newline>    // Prepare request options\<newline>''
     @ ''    const options = {\<newline>''
     @ ''      url,\<newline>''
     @ ''      method: '' @ quote @ prog_method prog @ quote @ '',\<newline>''
     @ concat (map print_header (prog_headers prog))
     @ (if prog_data prog then ''      data: requestData,\<newline>'' else [])
     @ ''    };\<newline>\<newline>''
     @ ''    return request(options);\<newline>''
     @ ''  };\<newline>''"

subsection \<open>Running\<close>

text \<open>
  A call of the method with the object \<^verbatim>\<open>params\<close>, read as the function from a property
  name to its value (\<open>None\<close> is \<^verbatim>\<open>undefined\<close>; the default \<^verbatim>\<open>= undefined\<close> changes
  nothing). A destructured identifier has the value of the property of that name; any
  other identifier is read from the enclosing scope, which is a parameter of the run, as
  is the value of \<^verbatim>\<open>BASE_URL\<close>. The text is read as the program it prints: the names
  and paths pasted into it stand for themselves, with no quote or backtick of their own,
  and the destructured identifiers are taken to be identifiers, different from one
  another and from the names the method itself declares (\<^verbatim>\<open>params\<close>, \<^verbatim>\<open>url\<close>,
  \<^verbatim>\<open>queryString\<close>, \<^verbatim>\<open>options\<close>).
\<close>

type_synonym scope = "string \<Rightarrow> error + json option"

definition lookup :: "method_program \<Rightarrow> (string \<Rightarrow> json option) \<Rightarrow> scope \<Rightarrow> scope" where
  "lookup prog params outer x =
     (if x \<in> fst ` set (prog_fields prog) then Inr (params x) else outer x)"

text \<open>\<^verbatim>\<open>encodeURIComponent\<close> on the string of a value.\<close>

definition unreserved :: "char \<Rightarrow> bool" where
  "unreserved c = (is_alnum c \<or> c \<in> set (''-_.!~*()'' @ quote))"

definition hex_digit :: "nat \<Rightarrow> char" where
  "hex_digit d = (if d < 10 then char_of (48 + d) else char_of (55 + d))"

definition percent_byte :: "nat \<Rightarrow> string" where
  "percent_byte b = [CHR ''%'', hex_digit (b div 16), hex_digit (b mod 16)]"

definition encode_char :: "char \<Rightarrow> string" where
  "encode_char c =
     (if unreserved c then [c]
      else if (of_char c :: nat) < 128 then percent_byte (of_char c)
      else percent_byte (192 + (of_char c :: nat) div 64)
           @ percent_byte (128 + (of_char c :: nat) mod 64))"

definition encodeURIComponent :: "string \<Rightarrow> string" where
  "encodeURIComponent s = concat (map encode_char s)"

text \<open>The template \<^verbatim>\<open>`${BASE_URL}...`\<close>: the pieces are evaluated from left to right.\<close>

fun eval_pieces :: "scope \<Rightarrow> piece list \<Rightarrow> error + string" where
  "eval_pieces sc [] = Inr []"
| "eval_pieces sc (Text c # ps) =
     (case eval_pieces sc ps of Inl e \<Rightarrow> Inl e | Inr s \<Rightarrow> Inr (c # s))"
| "eval_pieces sc (Interp x # ps) =
     (case sc x of
        Inl e \<Rightarrow> Inl e
      | Inr v \<Rightarrow> (case eval_pieces sc ps of Inl e \<Rightarrow> Inl e | Inr s \<Rightarrow> Inr (js_string_opt v @ s)))"






text \<open>
  The client object: the statements \<^verbatim>\<open>client.<name> = function ...\<close> of the module run
  in the order of the text, each setting the property of its name.
\<close>

definition module_programs :: "document \<Rightarrow> method_program list" where
  "module_programs spec =
     map (\<lambda>(path, method, operation). method_program path method operation) (operations_of spec)"



section \<open>The vocabulary of the statements\<close>

subsection \<open>Identifiers\<close>

text \<open>A separator immediately followed by a letter or digit occurs in the string.\<close>

fun sep_before_alnum :: "string \<Rightarrow> bool" where
  "sep_before_alnum (c # d # cs) = ((is_sep c \<and> is_alnum d) \<or> sep_before_alnum (d # cs))"
| "sep_before_alnum cs = False"

subsection \<open>The method name as the specification derives it\<close>

text \<open>
  The specification's derivation, step by step: strip the leading slash, remove the
  braces around each path parameter, split on the slash, put the first segment in lower
  case, capitalize every later segment, join, and put the method name in lower case in
  front. \<open>until_close\<close> reads a parameter name: the text up to the next closing brace,
  and the text after that brace.
\<close>

fun until_close :: "string \<Rightarrow> (string \<times> string) option" where
  "until_close [] = None"
| "until_close (c # cs) =
     (if c = CHR ''}'' then Some ([], cs)
      else (case until_close cs of None \<Rightarrow> None | Some (n, r) \<Rightarrow> Some (c # n, r)))"

lemma until_close_length: "until_close cs = Some (n, r) \<Longrightarrow> length r < length cs"
  by (induction cs arbitrary: n r) (auto split: if_splits option.splits)

function remove_braces :: "string \<Rightarrow> string" where
  "remove_braces [] = []"
| "remove_braces (c # cs) =
     (if c = CHR ''{'' then
        (case until_close cs of
           None \<Rightarrow> c # remove_braces cs
         | Some (n, r) \<Rightarrow> if n = [] then c # remove_braces cs else n @ remove_braces r)
      else c # remove_braces cs)"
  by pat_completeness auto
termination
proof (relation "measure length")
  fix c :: char and cs n r :: string and x :: "string \<times> string"
  assume "until_close cs = Some x" and "(n, r) = x"
  then have "until_close cs = Some (n, r)"
    by simp
  then have "length r < length cs"
    by (rule until_close_length)
  then show "(r, c # cs) \<in> measure length"
    by simp
qed simp_all

function segments :: "string \<Rightarrow> string list" where
  "segments s =
     (if CHR ''/'' \<in> set s
      then takeWhile (\<lambda>c. c \<noteq> CHR ''/'') s # segments (tl (dropWhile (\<lambda>c. c \<noteq> CHR ''/'') s))
      else [s])"
  by pat_completeness auto
termination
proof (relation "measure length")
  fix s :: string
  assume "CHR ''/'' \<in> set s"
  then have "dropWhile (\<lambda>c. c \<noteq> CHR ''/'') s \<noteq> []"
    by simp
  moreover have "length (dropWhile (\<lambda>c. c \<noteq> CHR ''/'') s) \<le> length s"
    by (rule length_dropWhile_le)
  ultimately have "length (tl (dropWhile (\<lambda>c. c \<noteq> CHR ''/'') s)) < length s"
    by (cases "dropWhile (\<lambda>c. c \<noteq> CHR ''/'') s") auto
  then show "(tl (dropWhile (\<lambda>c. c \<noteq> CHR ''/'') s), s) \<in> measure length"
    by simp
qed simp

declare segments.simps [simp del]

text \<open>
  Capitalizing a segment, as the specification has it (the first letter in upper case,
  the rest unchanged) and as the generator does it (the rest in lower case).
\<close>

fun capitalize_keeping :: "string \<Rightarrow> string" where
  "capitalize_keeping [] = []"
| "capitalize_keeping (c # cs) = to_upper c # cs"

fun capitalize_lowering :: "string \<Rightarrow> string" where
  "capitalize_lowering [] = []"
| "capitalize_lowering (c # cs) = to_upper c # map to_lower cs"

definition name_of_segments :: "(string \<Rightarrow> string) \<Rightarrow> string \<Rightarrow> string list \<Rightarrow> string" where
  "name_of_segments capitalize method segs =
     map to_lower method @
     (case segs of [] \<Rightarrow> [] | first # others \<Rightarrow> map to_lower first @ concat (map capitalize others))"

definition without_leading_slash :: "string \<Rightarrow> string" where
  "without_leading_slash path = (if path \<noteq> [] \<and> hd path = CHR ''/'' then tl path else path)"

definition spec_function_name :: "string \<Rightarrow> string \<Rightarrow> string" where
  "spec_function_name method path =
     name_of_segments capitalize_keeping method
       (segments (remove_braces (without_leading_slash path)))"

definition derived_function_name :: "string \<Rightarrow> string \<Rightarrow> string" where
  "derived_function_name method path =
     name_of_segments capitalize_lowering method
       (segments (remove_braces (without_leading_slash path)))"

subsection \<open>Schemas and documents\<close>

text \<open>A schema node that is only a reference pointer, and the tests on \<^verbatim>\<open>schema.type\<close>.\<close>

definition reference :: "string \<Rightarrow> json" where
  "reference r = JObj [(''$ref'', JStr r)]"

definition is_array_schema :: "json \<Rightarrow> bool" where
  "is_array_schema schema = (truthy schema \<and> get_prop schema ''type'' = Some (JStr ''array''))"

definition is_object_schema :: "json \<Rightarrow> bool" where
  "is_object_schema schema =
     (truthy schema \<and> get_prop schema ''type'' \<noteq> Some (JStr ''array'') \<and>
      (get_prop schema ''type'' = Some (JStr ''object'') \<or>
       (\<not> truthy_opt (get_prop schema ''type'') \<and> truthy_opt (get_prop schema ''properties''))))"

text \<open>
  The specification's reading of an array schema: the element type is inferred from the
  items schema after resolution.
\<close>

definition spec_array_type :: "json \<Rightarrow> json \<Rightarrow> string run" where
  "spec_array_type spec schema =
     bind_run (resolveSchema spec (get_prop schema ''items''))
       (\<lambda>items. lift_run (case getTypeFromSchema items of
                             Inl e \<Rightarrow> Inl e
                           | Inr t \<Rightarrow> Inr (''Array<'' @ t @ ''>'')))"

text \<open>The documents and schemas used as examples.\<close>

definition pet_document :: json where
  "pet_document =
     JObj [(''openapi'', JStr ''3.0.1''),
           (''components'',
            JObj [(''schemas'',
                   JObj [(''Tag'', JObj [(''type'', JStr ''string'')]),
                         (''Alias'', JObj [(''$ref'', JStr ''#/components/schemas/Tag'')]),
                         (''Pet'',
                          JObj [(''type'', JStr ''object''),
                                (''properties'',
                                 JObj [(''id'', JObj [(''type'', JStr ''integer'')]),
                                       (''tag'', JObj [(''$ref'', JStr ''#/components/schemas/Tag'')])]),
                                (''required'', JArr [JStr ''id''])])])])]"

definition tag_list_schema :: json where
  "tag_list_schema =
     JObj [(''type'', JStr ''array''), (''items'', reference ''#/components/schemas/Tag'')]"

fun is_reference :: "json \<Rightarrow> bool" where
  "is_reference (JObj [(k, JStr r)]) = (k = ''$ref'')"
| "is_reference p = False"

definition pet_schema :: json where
  "pet_schema =
     JObj [(''type'', JStr ''object''),
           (''properties'',
            JObj [(''id'', JObj [(''type'', JStr ''integer'')]),
                  (''tag'', JObj [(''$ref'', JStr ''#/components/schemas/Tag'')])]),
           (''required'', JArr [JStr ''id''])]"

subsection \<open>Templates\<close>

text \<open>
  The interpolation points of a template text: at every \<^verbatim>\<open>${\<close> the expression up to
  the next closing brace.
\<close>

function interpolations :: "string \<Rightarrow> string list" where
  "interpolations [] = []"
| "interpolations [c] = []"
| "interpolations (c # d # cs) =
     (if c = CHR ''$'' \<and> d = CHR ''{''
      then takeWhile (\<lambda>x. x \<noteq> CHR ''}'') cs # interpolations (dropWhile (\<lambda>x. x \<noteq> CHR ''}'') cs)
      else interpolations (d # cs))"
  by pat_completeness auto
termination
proof (relation "measure length")
  fix c d :: char and cs :: string
  have "length (dropWhile (\<lambda>x. x \<noteq> CHR ''}'') cs) \<le> length cs"
    by (rule length_dropWhile_le)
  then show "(dropWhile (\<lambda>x. x \<noteq> CHR ''}'') cs, c # d # cs) \<in> measure length"
    by simp
qed simp_all

text \<open>
  A path template as a sequence of parts: literal text without an opening brace, and
  placeholders with a name that is not empty and has no closing brace.
\<close>

datatype part = Lit string | Param string

fun render_part :: "part \<Rightarrow> string" where
  "render_part (Lit s) = s"
| "render_part (Param n) = ''{'' @ n @ ''}''"

definition render_template :: "part list \<Rightarrow> string" where
  "render_template parts = concat (map render_part parts)"

fun wf_part :: "part \<Rightarrow> bool" where
  "wf_part (Lit s) = (CHR ''{'' \<notin> set s)"
| "wf_part (Param n) = (n \<noteq> [] \<and> CHR ''}'' \<notin> set n)"

fun param_names :: "part list \<Rightarrow> string list" where
  "param_names [] = []"
| "param_names (Lit s # parts) = param_names parts"
| "param_names (Param n # parts) = n # param_names parts"

text \<open>What a part of the path is expected to become in the URL template.\<close>

fun emitted_part :: "part \<Rightarrow> string" where
  "emitted_part (Lit s) = s"
| "emitted_part (Param n) = ''${'' @ normalizeParamName n @ ''}''"

subsection \<open>What a call is expected to build\<close>
















text \<open>The pieces and the value that a part of the path is expected to give.\<close>

fun part_pieces :: "part \<Rightarrow> piece list" where
  "part_pieces (Lit s) = map Text s"
| "part_pieces (Param n) = [Interp (normalizeParamName n)]"

fun part_value :: "(string \<Rightarrow> json option) \<Rightarrow> part \<Rightarrow> string" where
  "part_value params (Lit s) = s"
| "part_value params (Param n) = js_string_opt (params (normalizeParamName n))"

section \<open>Properties of the generator\<close>

subsection \<open>The identifier normalizer\<close>

lemma to_upper_alnum: "is_alnum d \<Longrightarrow> is_alnum (to_upper d)"
  unfolding is_alnum_def to_upper_def is_lower_def is_upper_def is_digit_def
  by (auto simp: of_char_of)

lemma camel_ident: "list_all is_ident_char s \<Longrightarrow> list_all is_ident_char (camel s)"
  by (induction s rule: camel.induct) (auto simp: is_ident_char_def to_upper_alnum)

lemma replace_invalid_ident: "list_all is_ident_char (replace_invalid s)"
  by (induction s) (auto simp: replace_invalid_def is_ident_char_def)

lemma guard_digit_ident: "list_all is_ident_char s \<Longrightarrow> list_all is_ident_char (guard_digit s)"
  by (simp add: guard_digit_def is_ident_char_def)

lemma normalizeParamName_ident: "list_all is_ident_char (normalizeParamName name)"
  by (simp add: normalizeParamName_def Let_def camel_ident guard_digit_ident replace_invalid_ident)

lemma replace_invalid_fix: "list_all is_ident_char s \<Longrightarrow> replace_invalid s = s"
  by (induction s) (auto simp: replace_invalid_def)

lemma camel_fix: "\<not> sep_before_alnum s \<Longrightarrow> camel s = s"
  by (induction s rule: camel.induct) auto

text \<open>
  C1 (as stated): \<^verbatim>\<open>normalizeParamName(normalizeParamName(x))\<close> equals
  \<^verbatim>\<open>normalizeParamName(x)\<close> for every string. It fails: a dot becomes an underscore in
  the first pass, and the second pass, which now sees an underscore in its input,
  collapses it into camel case.
\<close>

theorem normalizeParamName_not_idempotent:
  "normalizeParamName ''page.size'' = ''page_size'' \<and>
   normalizeParamName (normalizeParamName ''page.size'') = ''pageSize'' \<and>
   normalizeParamName (normalizeParamName ''page.size'') \<noteq> normalizeParamName ''page.size''"
  by code_simp

text \<open>
  C1 (amended): a second pass changes nothing whenever the result of the first pass
  does not begin with a digit and has no underscore or hyphen immediately before a
  letter or digit.
\<close>

theorem normalizeParamName_idempotent_on_stable:
  assumes "\<not> starts_with_digit (normalizeParamName x)"
    and "\<not> sep_before_alnum (normalizeParamName x)"
  shows "normalizeParamName (normalizeParamName x) = normalizeParamName x"
proof -
  let ?y = "normalizeParamName x"
  have "replace_invalid ?y = ?y"
    by (rule replace_invalid_fix) (rule normalizeParamName_ident)
  moreover have "guard_digit ?y = ?y"
    using assms(1) by (simp add: guard_digit_def)
  moreover have "camel ?y = ?y"
    using assms(2) by (rule camel_fix)
  ultimately show ?thesis
    by (simp add: normalizeParamName_def [of ?y] Let_def)
qed

text \<open>
  An instance: the header name \<^verbatim>\<open>X-Request-Id\<close> is normalized to \<^verbatim>\<open>XRequestId\<close>, which a
  second pass leaves as it is.
\<close>

theorem normalizeParamName_idempotent_witness:
  "\<not> starts_with_digit (normalizeParamName ''X-Request-Id'') \<and>
   \<not> sep_before_alnum (normalizeParamName ''X-Request-Id'') \<and>
   normalizeParamName ''X-Request-Id'' = ''XRequestId'' \<and>
   normalizeParamName (normalizeParamName ''X-Request-Id'') = normalizeParamName ''X-Request-Id''"
proof -
  have a: "\<not> starts_with_digit (normalizeParamName ''X-Request-Id'')" by code_simp
  have b: "\<not> sep_before_alnum (normalizeParamName ''X-Request-Id'')" by code_simp
  have c: "normalizeParamName ''X-Request-Id'' = ''XRequestId''" by code_simp
  show ?thesis using a b c normalizeParamName_idempotent_on_stable [OF a b] by simp
qed

text \<open>
  C2: the result of \<^verbatim>\<open>normalizeParamName\<close> is to begin with a letter, an underscore or a
  dollar sign. The function guards against a leading digit before the camel-case step,
  and that step removes the underscore in front of the digit again: the names \<^verbatim>\<open>_1\<close>
  and \<^verbatim>\<open>3d-model\<close> give results that begin with a digit. (Every character of a result
  is a letter, a digit, an underscore or a dollar sign: \<open>normalizeParamName_ident\<close>.)
\<close>

theorem normalizeParamName_leading_digit:
  "normalizeParamName ''_1'' = ''1'' \<and> starts_with_digit (normalizeParamName ''_1'') \<and>
   normalizeParamName ''3d-model'' = ''3dModel'' \<and>
   starts_with_digit (normalizeParamName ''3d-model'')"
  by code_simp

subsection \<open>Method names\<close>

lemma until_close_takeWhile:
  "until_close cs =
     (if dropWhile (\<lambda>x. x \<noteq> CHR ''}'') cs = [] then None
      else Some (takeWhile (\<lambda>x. x \<noteq> CHR ''}'') cs, tl (dropWhile (\<lambda>x. x \<noteq> CHR ''}'') cs)))"
  by (induction cs) auto

lemma remove_braces_replace: "remove_braces s = replace_placeholders (\<lambda>name. name) s"
proof (induction s rule: remove_braces.induct)
  case 1
  then show ?case by simp
next
  case (2 c cs)
  let ?n = "takeWhile (\<lambda>x. x \<noteq> CHR ''}'') cs"
  let ?d = "dropWhile (\<lambda>x. x \<noteq> CHR ''}'') cs"
  show ?case
  proof (cases "c = CHR ''{'' \<and> ?n \<noteq> [] \<and> ?d \<noteq> []")
    case True
    then have u: "until_close cs = Some (?n, tl ?d)"
      by (simp add: until_close_takeWhile)
    from True u have "remove_braces (tl ?d) = replace_placeholders (\<lambda>name. name) (tl ?d)"
      using "2.IH"(3) [of "(?n, tl ?d)" ?n "tl ?d"] by simp
    with True u show ?thesis by simp
  next
    case False
    have ih: "remove_braces cs = replace_placeholders (\<lambda>name. name) cs"
    proof (cases "c = CHR ''{''")
      case c: True
      show ?thesis
      proof (cases "until_close cs")
        case None
        with c show ?thesis using "2.IH"(1) by simp
      next
        case (Some x)
        obtain n r where x: "x = (n, r)" by (cases x)
        with Some False c have "n = []"
          by (auto simp: until_close_takeWhile split: if_splits)
        with c Some x show ?thesis using "2.IH"(2) [of x n r] by simp
      qed
    next
      case c: False
      then show ?thesis using "2.IH"(4) by simp
    qed
    show ?thesis
    proof (cases "until_close cs")
      case None
      with False ih show ?thesis by (auto simp: until_close_takeWhile split: if_splits)
    next
      case (Some x)
      obtain n r where x: "x = (n, r)" by (cases x)
      show ?thesis
      proof (cases "c = CHR ''{''")
        case c: True
        with Some False x have "n = []"
          by (auto simp: until_close_takeWhile split: if_splits)
        with c Some x False ih show ?thesis by auto
      next
        case c: False
        with ih show ?thesis by simp
      qed
    qed
  qed
qed

lemma split_on_not_Nil: "split_on d s \<noteq> []"
  by (induction s) (auto split: list.splits)

lemma split_on_no_sep: "d \<notin> set s \<Longrightarrow> split_on d s = [s]"
  by (induction s) auto

lemma split_on_takeWhile:
  "d \<in> set s \<Longrightarrow>
   split_on d s = takeWhile (\<lambda>c. c \<noteq> d) s # split_on d (tl (dropWhile (\<lambda>c. c \<noteq> d) s))"
proof (induction s)
  case Nil
  then show ?case by simp
next
  case (Cons c cs)
  show ?case
  proof (cases "c = d")
    case True
    then show ?thesis by simp
  next
    case False
    with Cons.prems have "d \<in> set cs" by simp
    with Cons.IH False show ?thesis by simp
  qed
qed

lemma segments_split_on: "segments s = split_on CHR ''/'' s"
proof (induction s rule: segments.induct)
  case (1 s)
  show ?case
  proof (cases "CHR ''/'' \<in> set s")
    case True
    with "1" show ?thesis
      by (subst segments.simps) (simp add: split_on_takeWhile)
  next
    case False
    then show ?thesis
      by (subst segments.simps) (simp add: split_on_no_sep)
  qed
qed

lemma join_empty: "join [] xs = concat xs"
  by (induction "[] :: string" xs rule: join.induct) auto

lemma capitalize_part_lowering: "capitalize_part = capitalize_lowering"
proof
  fix p
  show "capitalize_part p = capitalize_lowering p"
    by (cases p) (simp_all add: capitalize_part_def toUpperCase_def toLowerCase_def)
qed

lemma without_leading_slash_strip: "without_leading_slash path = strip_leading_slash path"
  by (cases path) (simp_all add: without_leading_slash_def strip_leading_slash_def)

lemma generateFunctionNameFromPath_derived:
  "generateFunctionNameFromPath method path = derived_function_name method path"
  by (simp add: generateFunctionNameFromPath_def derived_function_name_def Let_def
      name_of_segments_def camelCaseParts_def join_empty segments_split_on
      remove_braces_replace without_leading_slash_strip toLowerCase_def
      capitalize_part_lowering split: list.splits)

text \<open>
  C3 (amended): without an operationId the method name is the method in lower case
  followed by the segments of the path, the path taken without its leading slash and
  without the braces of its parameters and split on the slash: the first segment in
  lower case, every later segment with its first letter in upper case and its other
  letters in lower case. \<^verbatim>\<open>get\<close> and \<^verbatim>\<open>/moment/list\<close> give \<^verbatim>\<open>getmomentList\<close>. An
  operationId that is not the empty string is the name as it stands; the empty string
  counts as absent.
\<close>

theorem functionName_of_derived:
  "functionName_of None method path = derived_function_name method path \<and>
   functionName_of (Some []) method path = derived_function_name method path \<and>
   (i \<noteq> [] \<longrightarrow> functionName_of (Some i) method path = i) \<and>
   functionName_of None ''get'' ''/moment/list'' = ''getmomentList''"
proof -
  have "generateFunctionNameFromPath ''get'' ''/moment/list'' = ''getmomentList''"
    by code_simp
  then show ?thesis
    by (simp add: functionName_of_def generateFunctionNameFromPath_derived)
qed

text \<open>
  Instances: a path with a parameter and with capitals inside its segments, and an
  operationId.
\<close>

theorem functionName_of_derived_witness:
  "functionName_of None ''get'' ''/users/{userId}/postsAll'' = ''getusersUseridPostsall'' \<and>
   ''listMoment'' \<noteq> [] \<and> functionName_of (Some ''listMoment'') ''get'' ''/moment/list'' = ''listMoment''"
proof -
  have "derived_function_name ''get'' ''/users/{userId}/postsAll'' = ''getusersUseridPostsall''"
    by code_simp
  then show ?thesis
    using functionName_of_derived [of "''get''" "''/users/{userId}/postsAll''" "''listMoment''"]
      functionName_of_derived [of "''get''" "''/moment/list''" "''listMoment''"]
    by simp
qed

text \<open>
  C3 (as stated): the first segment stays in lower case, so \<^verbatim>\<open>get\<close> and
  \<^verbatim>\<open>/moment/list\<close> do not give \<^verbatim>\<open>getMomentList\<close>; and the letters after the first of
  a later segment are put in lower case, not kept.
\<close>

theorem functionName_not_as_specified:
  "generateFunctionNameFromPath ''get'' ''/moment/list'' = ''getmomentList'' \<and>
   generateFunctionNameFromPath ''get'' ''/moment/list'' \<noteq> ''getMomentList'' \<and>
   generateFunctionNameFromPath ''get'' ''/user/listAll'' = ''getuserListall'' \<and>
   spec_function_name ''get'' ''/user/listAll'' = ''getuserListAll''"
  by code_simp

subsection \<open>Type inference\<close>

lemma getTypeFromSchema_reference: "getTypeFromSchema (reference r) = Inr ''any''"
  by (simp add: getTypeFromSchema.simps reference_def truthy_opt_def typeMap_lookup_def
      typeMap_def js_string_opt_def)

text \<open>
  C4 (as stated): the element type of an array schema is inferred from the items schema
  after resolution. For an array whose items are a pointer to a string schema that
  reading gives \<^verbatim>\<open>Array<string>\<close>; \<^verbatim>\<open>resolveSchema\<close> returns the array schema with the
  pointer still in it, and \<^verbatim>\<open>getTypeFromSchema\<close>, which has no access to the document,
  gives \<^verbatim>\<open>Array<any>\<close>.
\<close>

theorem array_items_not_resolved:
  "spec_array_type pet_document tag_list_schema = Some (Inr ''Array<string>'', []) \<and>
   resolveSchema pet_document (Some tag_list_schema) = Some (Inr tag_list_schema, []) \<and>
   getTypeFromSchema tag_list_schema = Inr ''Array<any>''"
  by (simp add: spec_array_type_def pet_document_def tag_list_schema_def reference_def
      bind_run_def lift_run_def resolveSchema.simps refPath_def getTypeFromSchema.simps
      truthy_opt_def typeMap_lookup_def typeMap_def js_string_opt_def)

text \<open>
  C4 (amended): for every array schema the inferred type is \<^verbatim>\<open>Array<T>\<close> where \<^verbatim>\<open>T\<close> is
  inferred from the items schema as it stands in the document, with no resolution;
  items that are a reference pointer give \<^verbatim>\<open>Array<any>\<close>, and so do absent items.
\<close>

theorem getTypeFromSchema_array:
  assumes "is_array_schema schema"
  shows "(get_prop schema ''items'' = Some items \<and> truthy items \<longrightarrow>
           getTypeFromSchema schema =
             (case getTypeFromSchema items of
                Inl e \<Rightarrow> Inl e
              | Inr t \<Rightarrow> Inr (''Array<'' @ t @ ''>''))) \<and>
         (get_prop schema ''items'' = Some (reference r) \<longrightarrow>
           getTypeFromSchema schema = Inr ''Array<any>'') \<and>
         (\<not> truthy_opt (get_prop schema ''items'') \<longrightarrow>
           getTypeFromSchema schema = Inr ''Array<any>'')"
proof -
  have t: "truthy schema" and a: "get_prop schema ''type'' = Some (JStr ''array'')"
    using assms by (simp_all add: is_array_schema_def)
  have 1: "getTypeFromSchema schema =
      (case getTypeFromSchema items of Inl e \<Rightarrow> Inl e | Inr t \<Rightarrow> Inr (''Array<'' @ t @ ''>''))"
    if "get_prop schema ''items'' = Some items" and "truthy items" for items
    using t a that by (subst getTypeFromSchema.simps) simp
  have 2: "getTypeFromSchema schema = Inr ''Array<any>''"
    if "get_prop schema ''items'' = Some (reference r)"
  proof -
    have "truthy (reference r)" by (simp add: reference_def)
    from 1 [OF that this] show ?thesis by (simp add: getTypeFromSchema_reference)
  qed
  have 3: "getTypeFromSchema schema = Inr ''Array<any>''"
    if "\<not> truthy_opt (get_prop schema ''items'')"
    using t a that by (subst getTypeFromSchema.simps) (simp add: truthy_opt_def split: option.splits)
  from 1 2 3 show ?thesis by blast
qed

text \<open>
  An instance: the array whose items are a pointer to the schema \<^verbatim>\<open>Tag\<close>.
\<close>

theorem getTypeFromSchema_array_witness:
  "is_array_schema tag_list_schema \<and>
   get_prop tag_list_schema ''items'' = Some (reference ''#/components/schemas/Tag'') \<and>
   getTypeFromSchema tag_list_schema = Inr ''Array<any>''"
proof -
  have a: "is_array_schema tag_list_schema"
    by (simp add: is_array_schema_def tag_list_schema_def)
  have b: "get_prop tag_list_schema ''items'' = Some (reference ''#/components/schemas/Tag'')"
    by (simp add: tag_list_schema_def)
  show ?thesis
    using a b getTypeFromSchema_array [OF a, of "reference ''#/components/schemas/Tag''" "''#/components/schemas/Tag''"]
    by simp
qed

subsection \<open>Reference resolution\<close>







subsection \<open>References below the top level\<close>

lemma is_reference_reference: "is_reference p \<Longrightarrow> \<exists>r. p = reference r"
  by (induction p rule: is_reference.induct) (simp_all add: reference_def)

lemma getTypeFromSchema_is_reference: "is_reference p \<Longrightarrow> getTypeFromSchema p = Inr ''any''"
  using is_reference_reference [of p] getTypeFromSchema_reference by auto

lemma resolveSchema_inline:
  assumes "truthy s" and "\<not> truthy_opt (get_prop s ''$ref'')"
  shows "resolveSchema doc (Some s) = Some (Inr s, [])"
  using assms
  by (subst resolveSchema.simps) (simp add: truthy_opt_def split: option.splits)

lemma getTypeFromSchema_object:
  assumes "is_object_schema schema" and "get_prop schema ''properties'' = Some (JObj props)"
  shows "getTypeFromSchema schema =
     (case collect (map (\<lambda>(name, p). property_line (get_prop schema ''required'') name
                                       (getTypeFromSchema p)) props) of
        Inl e \<Rightarrow> Inl e
      | Inr ls \<Rightarrow> Inr (''{'' @ join '', '' ls @ ''}''))"
  using assms
  by (subst getTypeFromSchema.simps) (auto simp: is_object_schema_def truthy_opt_def)

text \<open>
  C10: a schema node that is a reference pointer is inferred as \<^verbatim>\<open>any\<close>;
  \<^verbatim>\<open>resolveSchema\<close> returns a schema that is not itself a pointer as it stands, pointers
  inside it included, so the type that \<^verbatim>\<open>generateJSDoc\<close> writes for it is inferred from
  the schema as it stands; and in the record type inferred for an object schema every
  property whose schema is a pointer is typed \<^verbatim>\<open>any\<close>.
\<close>

theorem nested_reference_any:
  "getTypeFromSchema (reference r) = Inr ''any'' \<and>
   (truthy s \<and> \<not> truthy_opt (get_prop s ''$ref'') \<longrightarrow>
      resolveSchema doc (Some s) = Some (Inr s, []) \<and>
      inferred_type doc (Some s) = Some (getTypeFromSchema s, [])) \<and>
   (is_object_schema schema \<and> get_prop schema ''properties'' = Some (JObj props) \<longrightarrow>
      getTypeFromSchema schema =
        (case collect
                (map (\<lambda>(name, p).
                        property_line (get_prop schema ''required'') name
                          (if is_reference p then Inr ''any'' else getTypeFromSchema p))
                     props) of
           Inl e \<Rightarrow> Inl e
         | Inr ls \<Rightarrow> Inr (''{'' @ join '', '' ls @ ''}'')))"
proof -
  have "(\<lambda>(name, p). property_line req name (getTypeFromSchema p)) =
        (\<lambda>(name, p). property_line req name
                        (if is_reference p then Inr ''any'' else getTypeFromSchema p))" for req
    by (auto simp: fun_eq_iff getTypeFromSchema_is_reference)
  moreover have "inferred_type doc (Some s) = Some (getTypeFromSchema s, [])"
    if "truthy s" and "\<not> truthy_opt (get_prop s ''$ref'')"
    using resolveSchema_inline [OF that, of doc]
    by (simp add: inferred_type_def bind_run_def lift_run_def)
  ultimately show ?thesis
    using getTypeFromSchema_object [of schema props] resolveSchema_inline [of s doc]
    by (simp add: getTypeFromSchema_reference)
qed

text \<open>
  An instance: the schema \<^verbatim>\<open>Pet\<close> of the example document, reached through a pointer.
\<close>

theorem nested_reference_any_witness:
  "resolveSchema pet_document (Some (reference ''#/components/schemas/Pet'')) = Some (Inr pet_schema, []) \<and>
   resolveSchema pet_document (Some pet_schema) = Some (Inr pet_schema, []) \<and>
   is_object_schema pet_schema \<and>
   getTypeFromSchema pet_schema = Inr ''{id: number, tag?: any}'' \<and>
   inferred_type pet_document (Some (reference ''#/components/schemas/Pet''))
     = Some (Inr ''{id: number, tag?: any}'', [])"
proof -
  let ?props = "[(''id'', JObj [(''type'', JStr ''integer'')]),
                 (''tag'', JObj [(''$ref'', JStr ''#/components/schemas/Tag'')])]"
  have a: "truthy pet_schema \<and> \<not> truthy_opt (get_prop pet_schema ''$ref'')"
    by (simp add: pet_schema_def truthy_opt_def)
  have b: "is_object_schema pet_schema \<and> get_prop pet_schema ''properties'' = Some (JObj ?props)"
    by (simp add: pet_schema_def is_object_schema_def)
  have c: "resolveSchema pet_document (Some (reference ''#/components/schemas/Pet'')) =
      resolveSchema pet_document (Some pet_schema)"
    by (subst resolveSchema.simps) (simp add: pet_document_def pet_schema_def reference_def refPath_def)
  have d: "getTypeFromSchema (JObj [(''type'', JStr ''integer'')]) = Inr ''number''"
    by code_simp
  have e: "is_reference (JObj [(''$ref'', JStr ''#/components/schemas/Tag'')])" 
    "\<not> is_reference (JObj [(''type'', JStr ''integer'')])"
    by simp_all
  have f: "get_prop pet_schema ''required'' = Some (JArr [JStr ''id''])"
    by (simp add: pet_schema_def)
  note inst = nested_reference_any [of "''x''" pet_schema pet_document pet_schema ?props]
  from inst a have r: "resolveSchema pet_document (Some pet_schema) = Some (Inr pet_schema, [])"
    by blast
  from inst b have "getTypeFromSchema pet_schema =
        (case collect
                (map (\<lambda>(name, p).
                        property_line (get_prop pet_schema ''required'') name
                          (if is_reference p then Inr ''any'' else getTypeFromSchema p))
                     ?props) of
           Inl e \<Rightarrow> Inl e
         | Inr ls \<Rightarrow> Inr (''{'' @ join '', '' ls @ ''}''))"
    by blast
  then have t: "getTypeFromSchema pet_schema = Inr ''{id: number, tag?: any}''"
    by (simp add: d e f property_line_def isRequired_def)
  have i: "inferred_type pet_document (Some (reference ''#/components/schemas/Pet''))
     = Some (Inr ''{id: number, tag?: any}'', [])"
    using c r t by (simp add: inferred_type_def bind_run_def lift_run_def)
  from b c r t i show ?thesis by simp
qed

subsection \<open>The emitted text is the print of the method's program\<close>

lemma url_template_pieces: "url_template path = concat (map print_piece (url_pieces path))"
  unfolding url_template_def
  by (induction path rule: url_pieces.induct) (simp_all add: print_piece_def)

lemma url_code_print:
  "url_code path = print_url (url_pieces path)"
  by (simp add: url_code_def print_url_def url_template_pieces)

lemma query_code_print:
  "query_code qs =
     print_query (map (\<lambda>param. (param_name param, normalizeParamName (param_name param))) qs)"
  by (simp add: query_code_def print_query_def comp_def)

lemma if_swap: "(if \<not> b then x else y) = (if b then y else x)"
  by simp

lemma destructure_code_print:
  "destructure_code ps qs hs body =
     print_fields
       (map (\<lambda>param. (normalizeParamName (param_name param), False)) ps
        @ map (\<lambda>param. (normalizeParamName (param_name param), \<not> param_required param)) (qs @ hs)
        @ (case body of None \<Rightarrow> [] | Some rb \<Rightarrow> [(''requestData'', \<not> body_required rb)]))"
  by (cases body) (simp_all add: destructure_code_def print_fields_def comp_def default_mark_def if_swap)

lemma header_param_lines_print:
  "header_param_lines hs =
     concat (map (\<lambda>(key, v). ''        '' @ quote @ key @ quote @ '': ''
                               @ print_header_value v @ '',\<newline>'') (header_entries hs))"
  by (simp add: header_param_lines_def header_entries_def comp_def print_header_value_def)

lemma options_code_print:
  "options_code method hs body =
     ''\<newline>    // Prepare request options\<newline>''
     @ ''    const options = {\<newline>''
     @ ''      url,\<newline>''
     @ ''      method: '' @ quote @ toUpperCase method @ quote @ '',\<newline>''
     @ concat (map print_header
         ((if hs \<noteq> [] then [header_entries hs] else [])
          @ (case body of
               None \<Rightarrow> []
             | Some rb \<Rightarrow>
                 [(''Content-Type'', Literal (primary_content_type (body_content rb)))
                  # header_entries hs])))
     @ (if body \<noteq> None then ''      data: requestData,\<newline>'' else [])
     @ ''    };\<newline>\<newline>''
     @ ''    return request(options);\<newline>''
     @ ''  };\<newline>''"
proof (cases body)
  case None
  then show ?thesis
    by (simp add: options_code_def print_header_def header_param_lines_print)
next
  case (Some rb)
  have "header_param_lines [] = []"
    by (simp add: header_param_lines_def)
  with Some show ?thesis
    by (simp add: options_code_def print_header_def header_param_lines_print
        print_header_value_def header_entries_def)
qed

lemma generateFunction_print:
  "generateFunction spec path method operation baseUrl =
     bind_run (generateJSDoc spec operation (params_in ''path'' operation)
                 (params_in ''query'' operation) (params_in ''header'' operation)
                 (requestBody operation))
       (\<lambda>jsDoc. return_run
          \<lparr>fn_name = prog_name (method_program path method operation),
           fn_code = jsDoc @ ''\<newline>'' @ print_method (method_program path method operation)\<rparr>)"
  by (simp add: generateFunction_def method_program_def Let_def print_method_def
      destructure_code_print url_code_print query_code_print options_code_print)

subsection \<open>The text of a generated module\<close>

lemma bind_run_value:
  "bind_run m f = Some (Inr b, w) \<Longrightarrow>
   \<exists>a w1 w2. m = Some (Inr a, w1) \<and> f a = Some (Inr b, w2) \<and> w = w1 @ w2"
  by (auto simp: bind_run_def split: option.splits sum.splits prod.splits)

lemma generateFunction_value:
  assumes "generateFunction tree path method operation baseUrl = Some (Inr functionInfo, w)"
  shows "fn_name functionInfo = prog_name (method_program path method operation) \<and>
         (\<exists>jsDoc. fn_code functionInfo =
            jsDoc @ ''\<newline>'' @ print_method (method_program path method operation))"
proof -
  from assms obtain jsDoc w1 w2 where
    "return_run \<lparr>fn_name = prog_name (method_program path method operation),
                 fn_code = jsDoc @ ''\<newline>'' @ print_method (method_program path method operation)\<rparr>
       = Some (Inr functionInfo, w2)"
    unfolding generateFunction_print by (auto dest!: bind_run_value)
  then have "functionInfo = \<lparr>fn_name = prog_name (method_program path method operation),
                 fn_code = jsDoc @ ''\<newline>'' @ print_method (method_program path method operation)\<rparr>"
    by (simp add: return_run_def)
  then show ?thesis by auto
qed

text \<open>
  The functions of a module that is generated are, in order, those of the operations:
  each has the name of the operation's program and, after its documentation comment,
  the print of that program.
\<close>

lemma generate_functions_value:
  "generate_functions tree baseUrl ops = Some (Inr infos, w) \<Longrightarrow>
   list_all2 (\<lambda>functionInfo (path, method, operation).
                fn_name functionInfo = prog_name (method_program path method operation) \<and>
                (\<exists>jsDoc. fn_code functionInfo =
                   jsDoc @ ''\<newline>'' @ print_method (method_program path method operation)))
             infos ops"
proof (induction ops arbitrary: infos w)
  case Nil
  then show ?case by (simp add: return_run_def)
next
  case (Cons x ops)
  obtain path meth operation where x: "x = (path, meth, operation)"
    by (cases x)
  from Cons.prems x have "bind_run (generateFunction tree path meth operation baseUrl)
       (\<lambda>functionInfo. bind_run (generate_functions tree baseUrl ops)
          (\<lambda>infos. return_run (functionInfo # infos))) = Some (Inr infos, w)"
    by simp
  from bind_run_value [OF this] obtain functionInfo w1 w2 where
    f: "generateFunction tree path meth operation baseUrl = Some (Inr functionInfo, w1)"
    and r: "bind_run (generate_functions tree baseUrl ops)
              (\<lambda>infos. return_run (functionInfo # infos)) = Some (Inr infos, w2)"
    by blast
  from bind_run_value [OF r] obtain rest w3 w4 where
    g: "generate_functions tree baseUrl ops = Some (Inr rest, w3)"
    and i: "return_run (functionInfo # rest) = Some (Inr infos, w4)"
    by blast
  from i have "infos = functionInfo # rest"
    by (simp add: return_run_def)
  with generateFunction_value [OF f] Cons.IH [OF g] x show ?case
    by simp
qed

lemma functions_names:
  "list_all2 (\<lambda>functionInfo (path, method, operation).
                fn_name functionInfo = prog_name (method_program path method operation) \<and>
                (\<exists>jsDoc. fn_code functionInfo =
                   jsDoc @ ''\<newline>'' @ print_method (method_program path method operation)))
             infos ops \<Longrightarrow>
   map fn_name infos =
     map prog_name (map (\<lambda>(path, method, operation). method_program path method operation) ops) \<and>
   list_all2 (\<lambda>functionInfo prog.
                \<exists>jsDoc. fn_code functionInfo = jsDoc @ ''\<newline>'' @ print_method prog)
             infos (map (\<lambda>(path, method, operation). method_program path method operation) ops)"
  by (induction infos ops rule: list_all2_induct) auto

lemma generateJavaScriptModule_value:
  assumes "generateJavaScriptModule spec baseUrl = Some (Inr code, w)"
  shows "\<exists>infos :: functionInfo list.
           code = generateModuleHeader spec baseUrl
                  @ join ''\<newline>\<newline>'' (map fn_code infos) @ module_footer \<and>
           map fn_name infos = map prog_name (module_programs spec) \<and>
           list_all2 (\<lambda>functionInfo prog.
                        \<exists>jsDoc. fn_code functionInfo = jsDoc @ ''\<newline>'' @ print_method prog)
                     infos (module_programs spec)"
proof -
  from assms have "bind_run (generate_functions (doc_tree spec) baseUrl (operations_of spec))
       (\<lambda>infos. return_run
          (generateModuleHeader spec baseUrl
           @ join ''\<newline>\<newline>'' (map fn_code infos)
           @ module_footer)) = Some (Inr code, w)"
    by (simp add: generateJavaScriptModule_def)
  from bind_run_value [OF this] obtain infos w1 w2 where
    g: "generate_functions (doc_tree spec) baseUrl (operations_of spec) = Some (Inr infos, w1)"
    and c: "return_run (generateModuleHeader spec baseUrl
              @ join ''\<newline>\<newline>'' (map fn_code infos) @ module_footer) = Some (Inr code, w2)"
    by blast
  note names = functions_names [OF generate_functions_value [OF g]]
  from c have "code = generateModuleHeader spec baseUrl
                  @ join ''\<newline>\<newline>'' (map fn_code infos) @ module_footer"
    by (simp add: return_run_def)
  with names have "code = generateModuleHeader spec baseUrl
                  @ join ''\<newline>\<newline>'' (map fn_code infos) @ module_footer \<and>
           map fn_name infos = map prog_name (module_programs spec) \<and>
           list_all2 (\<lambda>functionInfo prog.
                        \<exists>jsDoc. fn_code functionInfo = jsDoc @ ''\<newline>'' @ print_method prog)
                     infos (module_programs spec)"
    unfolding module_programs_def by simp
  then show ?thesis
    by (rule exI [of _ infos])
qed

subsection \<open>The URL template\<close>

lemma replace_placeholders_literal:
  "CHR ''{'' \<notin> set s \<Longrightarrow> replace_placeholders f (s @ rest) = s @ replace_placeholders f rest"
  by (induction s) auto

lemma replace_placeholders_match:
  assumes "n \<noteq> []" and "CHR ''}'' \<notin> set n"
  shows "replace_placeholders f (CHR ''{'' # n @ CHR ''}'' # rest) = f n @ replace_placeholders f rest"
proof -
  have t: "takeWhile (\<lambda>x. x \<noteq> CHR ''}'') (n @ CHR ''}'' # rest) = n"
    using assms(2) by (induction n) auto
  have d: "dropWhile (\<lambda>x. x \<noteq> CHR ''}'') (n @ CHR ''}'' # rest) = CHR ''}'' # rest"
    using assms(2) by (induction n) auto
  show ?thesis
    using assms(1) by (simp add: t d)
qed

lemma url_template_parts:
  "list_all wf_part parts \<Longrightarrow>
   url_template (render_template parts @ rest) = concat (map emitted_part parts) @ url_template rest"
proof (induction parts)
  case Nil
  then show ?case by (simp add: render_template_def)
next
  case (Cons p parts)
  then have ih: "url_template (render_template parts @ rest) =
      concat (map emitted_part parts) @ url_template rest"
    by simp
  show ?case
  proof (cases p)
    case (Lit s)
    with Cons.prems have "CHR ''{'' \<notin> set s" by simp
    then have "url_template (s @ render_template parts @ rest) =
        s @ url_template (render_template parts @ rest)"
      unfolding url_template_def by (rule replace_placeholders_literal)
    with Lit ih show ?thesis
      by (simp add: render_template_def)
  next
    case (Param n)
    with Cons.prems have n: "n \<noteq> []" "CHR ''}'' \<notin> set n" by simp_all
    have "url_template (CHR ''{'' # n @ CHR ''}'' # render_template parts @ rest) =
        (''${'' @ normalizeParamName n @ ''}'') @ url_template (render_template parts @ rest)"
      unfolding url_template_def by (rule replace_placeholders_match [OF n])
    with Param ih show ?thesis
      by (simp add: render_template_def)
  qed
qed

lemma ident_no_brace: "list_all is_ident_char s \<Longrightarrow> CHR ''}'' \<notin> set s"
  by (induction s)
    (auto simp: is_ident_char_def is_alnum_def is_lower_def is_upper_def is_digit_def)

lemma interpolations_literal:
  "CHR ''{'' \<notin> set s \<Longrightarrow> rest = [] \<or> hd rest \<noteq> CHR ''{'' \<Longrightarrow>
   interpolations (s @ rest) = interpolations rest"
proof (induction s rule: interpolations.induct)
  case 1
  then show ?case by simp
next
  case (2 c)
  then show ?case by (cases rest) auto
next
  case (3 c d cs)
  then show ?case by auto
qed

lemma interpolations_point:
  assumes "CHR ''}'' \<notin> set x" and "rest = [] \<or> hd rest \<noteq> CHR ''{''"
  shows "interpolations (''${'' @ x @ ''}'' @ rest) = x # interpolations rest"
proof -
  have t: "takeWhile (\<lambda>c. c \<noteq> CHR ''}'') (x @ CHR ''}'' # rest) = x"
    using assms(1) by (induction x) auto
  have d: "dropWhile (\<lambda>c. c \<noteq> CHR ''}'') (x @ CHR ''}'' # rest) = CHR ''}'' # rest"
    using assms(1) by (induction x) auto
  have "interpolations (CHR ''}'' # rest) = interpolations rest"
    using interpolations_literal [of "''}''" rest] assms(2) by simp
  then show ?thesis
    by (simp add: t d)
qed

lemma emitted_no_leading_brace:
  assumes "list_all wf_part parts" and "rest = [] \<or> hd rest \<noteq> CHR ''{''"
  shows "concat (map emitted_part parts) @ rest = [] \<or>
         hd (concat (map emitted_part parts) @ rest) \<noteq> CHR ''{''"
  using assms
proof (induction parts)
  case Nil
  then show ?case by simp
next
  case (Cons p parts)
  show ?case
  proof (cases p)
    case (Lit s)
    with Cons show ?thesis
      by (cases s) auto
  next
    case (Param n)
    then show ?thesis by simp
  qed
qed

lemma interpolations_parts:
  assumes "list_all wf_part parts" and "rest = [] \<or> hd rest \<noteq> CHR ''{''"
  shows "interpolations (concat (map emitted_part parts) @ rest) =
         map normalizeParamName (param_names parts) @ interpolations rest"
  using assms
proof (induction parts)
  case Nil
  then show ?case by simp
next
  case (Cons p parts)
  let ?tail = "concat (map emitted_part parts) @ rest"
  from Cons have ih: "interpolations ?tail =
      map normalizeParamName (param_names parts) @ interpolations rest"
    by simp
  from Cons.prems have nb: "?tail = [] \<or> hd ?tail \<noteq> CHR ''{''"
    using emitted_no_leading_brace [of parts rest] by simp
  show ?case
  proof (cases p)
    case (Lit s)
    with Cons.prems have "CHR ''{'' \<notin> set s" by simp
    then have "interpolations (s @ ?tail) = interpolations ?tail"
      using nb by (rule interpolations_literal)
    with Lit ih show ?thesis
      by simp
  next
    case (Param n)
    have "CHR ''}'' \<notin> set (normalizeParamName n)"
      by (rule ident_no_brace) (rule normalizeParamName_ident)
    then have "interpolations (''${'' @ normalizeParamName n @ ''}'' @ ?tail) =
        normalizeParamName n # interpolations ?tail"
      using nb by (rule interpolations_point)
    with Param ih show ?thesis
      by simp
  qed
qed

lemma url_template_interpolations_all:
  assumes "list_all wf_part parts"
  shows "url_template (render_template parts) = concat (map emitted_part parts) \<and>
         interpolations (url_template (render_template parts)) =
           map normalizeParamName (param_names parts) \<and>
         length (interpolations (url_template (render_template parts))) =
           length (param_names parts) \<and>
         interpolations (url_code (render_template parts)) =
           ''BASE_URL'' # map normalizeParamName (param_names parts)"
proof -
  have u: "url_template (render_template parts) = concat (map emitted_part parts)"
    using url_template_parts [OF assms, of "[]"] by (simp add: url_template_def)
  have i: "interpolations (concat (map emitted_part parts)) =
      map normalizeParamName (param_names parts)"
    using interpolations_parts [OF assms, of "[]"] by simp
  let ?close = "backtick @ '';\<newline>''"
  have c: "?close = [] \<or> hd ?close \<noteq> CHR ''{''"
    by (simp add: backtick_def)
  have "interpolations ?close = []"
    by (simp add: backtick_def)
  with interpolations_parts [OF assms c]
  have t: "interpolations (concat (map emitted_part parts) @ ?close) =
      map normalizeParamName (param_names parts)"
    by simp
  have nb: "concat (map emitted_part parts) @ ?close = [] \<or>
      hd (concat (map emitted_part parts) @ ?close) \<noteq> CHR ''{''"
    by (rule emitted_no_leading_brace [OF assms c])
  have b: "interpolations (''${'' @ ''BASE_URL'' @ ''}'' @ concat (map emitted_part parts) @ ?close) =
      ''BASE_URL'' # interpolations (concat (map emitted_part parts) @ ?close)"
    by (rule interpolations_point [OF _ nb]) simp
  have "interpolations (url_code (render_template parts)) =
      interpolations (''${'' @ ''BASE_URL'' @ ''}'' @ concat (map emitted_part parts) @ ?close)"
    unfolding url_code_def u
    using interpolations_literal
      [of "''    // Construct URL with path parameters\<newline>'' @ ''    let url = '' @ backtick"
          "''${'' @ ''BASE_URL'' @ ''}'' @ concat (map emitted_part parts) @ ?close"]
    by (simp add: backtick_def)
  with b t u i show ?thesis by simp
qed

text \<open>
  C5: for a path template with \<open>n\<close> distinct placeholders \<^verbatim>\<open>{name}\<close> (the text between
  them free of opening braces), the URL template has exactly \<open>n\<close> interpolation points,
  the one of each placeholder being the normalized name of that placeholder, in the
  order of the path; the line that declares \<^verbatim>\<open>url\<close> has these after the interpolation of
  \<^verbatim>\<open>BASE_URL\<close>.
\<close>

theorem url_template_interpolations:
  assumes "list_all wf_part parts"
    and "distinct (param_names parts)"
    and "length (param_names parts) = n"
  shows "length (interpolations (url_template (render_template parts))) = n \<and>
         interpolations (url_template (render_template parts)) =
           map normalizeParamName (param_names parts) \<and>
         url_template (render_template parts) = concat (map emitted_part parts) \<and>
         interpolations (url_code (render_template parts)) =
           ''BASE_URL'' # map normalizeParamName (param_names parts)"
proof -
  note general = url_template_interpolations_all [OF assms(1)]
  from general have "interpolations (url_template (render_template parts)) =
      map normalizeParamName (param_names parts)"
    by blast
  then have "length (interpolations (url_template (render_template parts))) = n"
    using assms(3) by simp
  with general show ?thesis
    by blast
qed

text \<open>
  An instance: a path with two placeholders.
\<close>

theorem url_template_interpolations_witness:
  "list_all wf_part [Lit ''/moment/'', Param ''moment-id'', Lit ''/comments/'', Param ''comment.id''] \<and>
   distinct (param_names [Lit ''/moment/'', Param ''moment-id'', Lit ''/comments/'', Param ''comment.id'']) \<and>
   render_template [Lit ''/moment/'', Param ''moment-id'', Lit ''/comments/'', Param ''comment.id'']
     = ''/moment/{moment-id}/comments/{comment.id}'' \<and>
   url_template ''/moment/{moment-id}/comments/{comment.id}''
     = ''/moment/${momentId}/comments/${comment_id}'' \<and>
   length (interpolations (url_template ''/moment/{moment-id}/comments/{comment.id}'')) = 2 \<and>
   interpolations (url_template ''/moment/{moment-id}/comments/{comment.id}'')
     = [normalizeParamName ''moment-id'', normalizeParamName ''comment.id'']"
proof -
  let ?parts = "[Lit ''/moment/'', Param ''moment-id'', Lit ''/comments/'', Param ''comment.id'']"
  have w: "list_all wf_part ?parts"
    by simp
  have d: "distinct (param_names ?parts)"
    by simp
  have l: "length (param_names ?parts) = 2"
    by simp
  have r: "render_template ?parts = ''/moment/{moment-id}/comments/{comment.id}''"
    by (simp add: render_template_def)
  have n: "normalizeParamName ''moment-id'' = ''momentId''" "normalizeParamName ''comment.id'' = ''comment_id''"
    by code_simp+
  from url_template_interpolations [OF w d l] w d r n show ?thesis
    by simp
qed

subsection \<open>Calls of an emitted method\<close>




lemma field_names:
  "map fst (prog_fields (method_program path method operation)) =
     map (\<lambda>param. normalizeParamName (param_name param))
       (params_in ''path'' operation @ params_in ''query'' operation
        @ params_in ''header'' operation)
     @ (case requestBody operation of None \<Rightarrow> [] | Some rb \<Rightarrow> [''requestData''])"
  by (simp add: method_program_def Let_def comp_def split: option.splits)

lemma fields_declared:
  assumes "q \<in> set (params_in ''path'' operation) \<or> q \<in> set (params_in ''query'' operation)
     \<or> q \<in> set (params_in ''header'' operation)"
  shows "normalizeParamName (param_name q)
     \<in> fst ` set (prog_fields (method_program path method operation))"
proof -
  have "normalizeParamName (param_name q)
      \<in> set (map fst (prog_fields (method_program path method operation)))"
    unfolding field_names using assms by auto
  then show ?thesis by simp
qed

lemma lookup_declared:
  "q \<in> set (params_in ''path'' operation) \<or> q \<in> set (params_in ''query'' operation)
     \<or> q \<in> set (params_in ''header'' operation) \<Longrightarrow>
   lookup (method_program path method operation) params outer (normalizeParamName (param_name q))
     = Inr (params (normalizeParamName (param_name q)))"
  using fields_declared [of q operation path] by (simp add: lookup_def)




lemma eval_pieces_plain: "eval_pieces sc (map Text path) = Inr path"
  by (induction path) auto




lemma primary_content_type_first:
  "content = (k, m) # rest \<Longrightarrow> k \<noteq> [] \<Longrightarrow> primary_content_type content = k"
  by (simp add: primary_content_type_def)




subsection \<open>The client object\<close>







subsection \<open>The URL of a call\<close>

lemma url_pieces_literal:
  "CHR ''{'' \<notin> set s \<Longrightarrow> url_pieces (s @ rest) = map Text s @ url_pieces rest"
  by (induction s) auto

lemma url_pieces_match:
  assumes "n \<noteq> []" and "CHR ''}'' \<notin> set n"
  shows "url_pieces (CHR ''{'' # n @ CHR ''}'' # rest) = Interp (normalizeParamName n) # url_pieces rest"
proof -
  have t: "takeWhile (\<lambda>x. x \<noteq> CHR ''}'') (n @ CHR ''}'' # rest) = n"
    using assms(2) by (induction n) auto
  have d: "dropWhile (\<lambda>x. x \<noteq> CHR ''}'') (n @ CHR ''}'' # rest) = CHR ''}'' # rest"
    using assms(2) by (induction n) auto
  show ?thesis
    using assms(1) by (simp add: t d)
qed

lemma url_pieces_parts:
  "list_all wf_part parts \<Longrightarrow>
   url_pieces (render_template parts) = concat (map part_pieces parts)"
proof (induction parts)
  case Nil
  then show ?case by (simp add: render_template_def)
next
  case (Cons p parts)
  then have ih: "url_pieces (render_template parts) = concat (map part_pieces parts)"
    by simp
  show ?case
  proof (cases p)
    case (Lit s)
    with Cons.prems have "CHR ''{'' \<notin> set s" by simp
    then have "url_pieces (s @ render_template parts) = map Text s @ url_pieces (render_template parts)"
      by (rule url_pieces_literal)
    with Lit ih show ?thesis
      by (simp add: render_template_def)
  next
    case (Param n)
    with Cons.prems have n: "n \<noteq> []" "CHR ''}'' \<notin> set n" by simp_all
    have "url_pieces (CHR ''{'' # n @ CHR ''}'' # render_template parts) =
        Interp (normalizeParamName n) # url_pieces (render_template parts)"
      by (rule url_pieces_match [OF n])
    with Param ih show ?thesis
      by (simp add: render_template_def)
  qed
qed

lemma eval_pieces_append:
  "eval_pieces sc (ps @ qs) =
     (case eval_pieces sc ps of
        Inl e \<Rightarrow> Inl e
      | Inr s \<Rightarrow> (case eval_pieces sc qs of Inl e \<Rightarrow> Inl e | Inr t \<Rightarrow> Inr (s @ t)))"
  by (induction sc ps rule: eval_pieces.induct) (auto split: sum.splits)

lemma eval_pieces_parts:
  assumes "\<And>n. n \<in> set (param_names parts) \<Longrightarrow>
     sc (normalizeParamName n) = Inr (params (normalizeParamName n))"
  shows "eval_pieces sc (concat (map part_pieces parts)) = Inr (concat (map (part_value params) parts))"
  using assms
proof (induction parts)
  case Nil
  then show ?case by simp
next
  case (Cons p parts)
  then have ih: "eval_pieces sc (concat (map part_pieces parts)) =
      Inr (concat (map (part_value params) parts))"
    by (cases p) simp_all
  show ?case
  proof (cases p)
    case (Lit s)
    with ih show ?thesis
      by (simp add: eval_pieces_append eval_pieces_plain)
  next
    case (Param n)
    with Cons.prems have "sc (normalizeParamName n) = Inr (params (normalizeParamName n))"
      by simp
    with Param ih show ?thesis
      by simp
  qed
qed

text \<open>
  The URL of a call: when every placeholder of the path is the name of a declared
  parameter, the template evaluates, each placeholder to the string of the value of its
  normalized identifier.
\<close>

lemma url_construction:
  assumes "list_all wf_part parts"
    and "\<And>n. n \<in> set (param_names parts) \<Longrightarrow>
           \<exists>q. param_name q = n \<and>
               (q \<in> set (params_in ''path'' operation) \<or> q \<in> set (params_in ''query'' operation)
                \<or> q \<in> set (params_in ''header'' operation))"
  shows "eval_pieces (lookup (method_program (render_template parts) method operation) params outer)
           (url_pieces (render_template parts))
         = Inr (concat (map (part_value params) parts))"
proof -
  let ?sc = "lookup (method_program (render_template parts) method operation) params outer"
  have "?sc (normalizeParamName n) = Inr (params (normalizeParamName n))"
    if "n \<in> set (param_names parts)" for n
  proof -
    from assms(2) [OF that] obtain q where "param_name q = n"
      and "q \<in> set (params_in ''path'' operation) \<or> q \<in> set (params_in ''query'' operation)
                \<or> q \<in> set (params_in ''header'' operation)"
      by blast
    then show ?thesis
      using lookup_declared [of q operation "render_template parts" _ params outer] by simp
  qed
  then have "eval_pieces ?sc (concat (map part_pieces parts)) =
      Inr (concat (map (part_value params) parts))"
    by (rule eval_pieces_parts)
  then show ?thesis
    by (simp add: url_pieces_parts [OF assms(1)])
qed

end
